theory Spec2Isabelle
  imports Main
begin

section \<open>Runes, strings and the scanner\<close>

text \<open>
  The parser of \<^verbatim>\<open>parser.go\<close> works on a slice of runes (Go's \<^verbatim>\<open>int32\<close> code
  points) and an integer cursor. A Go string that the parser builds rune by rune
  (\<^verbatim>\<open>n += string(p.Get())\<close>) is a list of runes here; a string literal of the
  source is written \<open>runes ''...''\<close>.
\<close>

type_synonym rune = int
type_synonym gostring = "rune list"

definition runes :: "string \<Rightarrow> gostring" where
  "runes s = map of_char s"

abbreviation (input) rn :: "char \<Rightarrow> rune" where
  "rn c \<equiv> of_char c"

text \<open>
  Modelled from the spec: the scanner (\<^verbatim>\<open>Get\<close>, \<^verbatim>\<open>Step\<close>, \<^verbatim>\<open>StepN\<close>,
  \<^verbatim>\<open>isEnd\<close>, \<^verbatim>\<open>pos\<close>) is not part of \<^verbatim>\<open>parser.go\<close>. Section 4.1 of the
  specification describes it: an immutable sequence of code points and a cursor;
  \<^verbatim>\<open>peek\<close> gives the current code point or an end-of-input sentinel, \<^verbatim>\<open>advance\<close>
  and \<^verbatim>\<open>advanceBy\<close> move the cursor unconditionally, \<^verbatim>\<open>atEnd\<close> tests for the end.
  The sentinel is a value that is no code point.
\<close>

definition EOF :: rune where
  "EOF = - 1"

definition Get :: "rune list \<Rightarrow> nat \<Rightarrow> rune" where
  "Get src cur = (if cur < length src then src ! cur else EOF)"

definition Step :: "nat \<Rightarrow> nat" where
  "Step cur = cur + 1"

definition StepN :: "nat \<Rightarrow> nat \<Rightarrow> nat" where
  "StepN n cur = cur + n"

definition isEnd :: "rune list \<Rightarrow> nat \<Rightarrow> bool" where
  "isEnd src cur = (length src \<le> cur)"

section \<open>Character classes\<close>

text \<open>
  Modelled from the spec: the character classifier is an external collaborator
  (Section 6) and is absent from \<^verbatim>\<open>parser.go\<close>. \<^verbatim>\<open>isSpace\<close> is exactly the
  four XML space characters and \<^verbatim>\<open>isQuote\<close> is \<^verbatim>\<open>'\<close> or \<^verbatim>\<open>"\<close> (Section 6).
  \<^verbatim>\<open>isNum\<close> and \<^verbatim>\<open>isAlpha\<close> are the classes \<^verbatim>\<open>[0-9]\<close> and \<^verbatim>\<open>[A-Za-z]\<close> of the
  grammar comments above \<^verbatim>\<open>parseVersionNum\<close> and \<^verbatim>\<open>parseEncName\<close>, which test
  them with these two predicates.
\<close>

definition isSpace :: "rune \<Rightarrow> bool" where
  "isSpace r = (r = 0x20 \<or> r = 0x9 \<or> r = 0xD \<or> r = 0xA)"

definition isQuote :: "rune \<Rightarrow> bool" where
  "isQuote r = (r = rn CHR 0x27 \<or> r = rn CHR 0x22)"

definition isNum :: "rune \<Rightarrow> bool" where
  "isNum r = (rn CHR ''0'' \<le> r \<and> r \<le> rn CHR ''9'')"

definition isAlpha :: "rune \<Rightarrow> bool" where
  "isAlpha r = ((rn CHR ''a'' \<le> r \<and> r \<le> rn CHR ''z'') \<or> (rn CHR ''A'' \<le> r \<and> r \<le> rn CHR ''Z''))"

text \<open>
  Modelled from the spec: the Unicode classes \<^verbatim>\<open>isLetter\<close>, \<^verbatim>\<open>isDigit\<close>,
  \<^verbatim>\<open>isCombining\<close>, \<^verbatim>\<open>isExtender\<close> and \<^verbatim>\<open>isChar\<close> are absent from the source
  and the specification leaves their exact ranges out of scope. On the ASCII range
  they are the classes of the XML 1.0 productions Letter, Digit, CombiningChar,
  Extender and Char; beyond it they are a parameter of the model, the record
  \<open>unicode\<close>. Every theorem below holds for every such record.
\<close>

record unicode =
  uLetter :: "rune \<Rightarrow> bool"
  uDigit :: "rune \<Rightarrow> bool"
  uCombining :: "rune \<Rightarrow> bool"
  uExtender :: "rune \<Rightarrow> bool"
  uChar :: "rune \<Rightarrow> bool"

definition isLetter :: "unicode \<Rightarrow> rune \<Rightarrow> bool" where
  "isLetter U r = (if r < 128 then isAlpha r else uLetter U r)"

definition isDigit :: "unicode \<Rightarrow> rune \<Rightarrow> bool" where
  "isDigit U r = (if r < 128 then isNum r else uDigit U r)"

definition isCombining :: "unicode \<Rightarrow> rune \<Rightarrow> bool" where
  "isCombining U r = (if r < 128 then False else uCombining U r)"

definition isExtender :: "unicode \<Rightarrow> rune \<Rightarrow> bool" where
  "isExtender U r = (if r < 128 then False else uExtender U r)"

definition isChar :: "unicode \<Rightarrow> rune \<Rightarrow> bool" where
  "isChar U r = (if r < 128 then r = 0x9 \<or> r = 0xA \<or> r = 0xD \<or> 0x20 \<le> r else uChar U r)"

text \<open>
  Modelled from the spec: \<^verbatim>\<open>isPubidChar\<close> is absent from the source; it is the
  production PubidChar of XML 1.0, which lies within ASCII:
  \<^verbatim>\<open>#x20 | #xD | #xA | [a-zA-Z0-9] | [-'()+,./:=?;!*#@$_%]\<close>.
\<close>

definition isPubidChar :: "rune \<Rightarrow> bool" where
  "isPubidChar r = (r = 0x20 \<or> r = 0xD \<or> r = 0xA \<or> isAlpha r \<or> isNum r
     \<or> r \<in> set (runes ''-()+,./:=?;!*#@$_%'') \<or> r = rn CHR 0x27)"

text \<open>
  Modelled from the spec: the free function \<^verbatim>\<open>isNameChar\<close> used by
  \<^verbatim>\<open>parseNmtoken\<close> is absent from the source; it is the production NameChar, as
  the method of the same name in \<^verbatim>\<open>parser.go\<close> spells it out.
\<close>

definition isNameChar :: "unicode \<Rightarrow> rune \<Rightarrow> bool" where
  "isNameChar U r = (isLetter U r \<or> isDigit U r \<or> r = rn CHR ''.'' \<or> r = rn CHR ''-''
     \<or> r = rn CHR ''_'' \<or> r = rn CHR '':'' \<or> isCombining U r \<or> isExtender U r)"

section \<open>Errors and results\<close>

text \<open>
  \<^verbatim>\<open>p.error(err)\<close> is \<^verbatim>\<open>newErr(p.parsing, err, p.pos())\<close>: the label of the
  production being parsed, the cause and the position. The label is set on entry to a
  production by \<^verbatim>\<open>defer p.setParsing(..)()\<close> and restored on exit, so it is an
  argument \<open>lbl\<close> of every operation here. Every operation returns the cursor it
  leaves behind together with its outcome, on failure as on success, since callers
  read the cursor after a failed attempt.
\<close>

datatype cause =
    ExpectedRune rune
  | ExpectedString gostring
  | UnexpectedVersionChar rune
  | CouldNotFindQuote rune
  | EndTagMismatch gostring gostring
  | Message string

datatype XMLError = XMLError (label: gostring) (cause: cause) (at: nat)

type_synonym 'a res = "(XMLError + 'a) \<times> nat"

definition error :: "gostring \<Rightarrow> nat \<Rightarrow> cause \<Rightarrow> 'a res" where
  "error lbl cur c = (Inl (XMLError lbl c cur), cur)"

definition failed :: "'a res \<Rightarrow> bool" where
  "failed r = isl (fst r)"

text \<open>
  The idiom \<^verbatim>\<open>if x, err = f(); err != nil { return nil, err }\<close>: on failure the
  error is passed on with the cursor as \<open>f\<close> left it, otherwise the rest runs on
  the value and the new cursor.
\<close>

definition andThen :: "'a res \<Rightarrow> ('a \<Rightarrow> nat \<Rightarrow> 'b res) \<Rightarrow> 'b res" where
  "andThen m f = (case m of (Inl e, c) \<Rightarrow> (Inl e, c) | (Inr x, c) \<Rightarrow> f x c)"

section \<open>Lookahead and required literals\<close>

definition Test :: "rune list \<Rightarrow> nat \<Rightarrow> rune \<Rightarrow> bool" where
  "Test src cur r = (Get src cur = r)"

definition Must :: "gostring \<Rightarrow> rune list \<Rightarrow> nat \<Rightarrow> rune \<Rightarrow> unit res" where
  "Must lbl src cur r =
     (if \<not> Test src cur r then error lbl cur (ExpectedRune r)
      else (Inr (), Step cur))"

definition Tests :: "rune list \<Rightarrow> nat \<Rightarrow> gostring \<Rightarrow> bool" where
  "Tests src cur str =
     (let i = cur; e = i + length str
      in if length src < e then False
         else take (e - i) (drop i src) = str)"

definition Musts :: "gostring \<Rightarrow> rune list \<Rightarrow> nat \<Rightarrow> gostring \<Rightarrow> unit res" where
  "Musts lbl src cur str =
     (if \<not> Tests src cur str then error lbl cur (ExpectedString str)
      else (Inr (), StepN (length str) cur))"

section \<open>White space, names, quotes\<close>

function skipSpace :: "rune list \<Rightarrow> nat \<Rightarrow> nat" where
  "skipSpace src cur = (if isSpace (Get src cur) then skipSpace src (Step cur) else cur)"
  by pat_completeness auto
termination
  by (relation "measure (\<lambda>(src, cur). length src - cur)")
    (auto simp: Get_def Step_def isSpace_def EOF_def split: if_splits)

declare skipSpace.simps [simp del]

definition parseSpace :: "gostring \<Rightarrow> rune list \<Rightarrow> nat \<Rightarrow> unit res" where
  "parseSpace lbl src cur =
     (if \<not> isSpace (Get src cur) then error lbl cur (Message ''expected space'')
      else (Inr (), skipSpace src cur))"

definition isNameChar_at :: "unicode \<Rightarrow> rune list \<Rightarrow> nat \<Rightarrow> bool" where
  "isNameChar_at U src cur =
     (isLetter U (Get src cur) \<or> isDigit U (Get src cur) \<or> Test src cur (rn CHR ''.'')
      \<or> Test src cur (rn CHR ''-'') \<or> Test src cur (rn CHR ''_'') \<or> Test src cur (rn CHR '':'')
      \<or> isCombining U (Get src cur) \<or> isExtender U (Get src cur))"

lemma isNameChar_at_less: "isNameChar_at U src cur \<Longrightarrow> cur < length src"
  by (auto simp: isNameChar_at_def isLetter_def isDigit_def isCombining_def isExtender_def
      isAlpha_def isNum_def Test_def Get_def EOF_def split: if_splits)

function parseName_loop :: "unicode \<Rightarrow> rune list \<Rightarrow> gostring \<Rightarrow> nat \<Rightarrow> gostring \<times> nat" where
  "parseName_loop U src n cur =
     (if isNameChar_at U src cur then parseName_loop U src (n @ [Get src cur]) (Step cur)
      else (n, cur))"
  by pat_completeness auto
termination
  by (relation "measure (\<lambda>(U, src, n, cur). length src - cur)")
    (auto simp: Step_def dest: isNameChar_at_less)

declare parseName_loop.simps [simp del]

definition parseName :: "unicode \<Rightarrow> gostring \<Rightarrow> rune list \<Rightarrow> nat \<Rightarrow> gostring res" where
  "parseName U lbl src cur =
     (if isLetter U (Get src cur) \<or> Test src cur (rn CHR ''_'') \<or> Test src cur (rn CHR '':'')
      then (case parseName_loop U src [Get src cur] (Step cur) of (n, c) \<Rightarrow> (Inr n, c))
      else error lbl cur (Message ''invalid letter for name''))"

definition parseQuote :: "gostring \<Rightarrow> rune list \<Rightarrow> nat \<Rightarrow> rune res" where
  "parseQuote lbl src cur =
     (let r = Get src cur
      in if isQuote r then (Inr r, Step cur)
         else error lbl cur (Message ''expected quote''))"

definition parseEq :: "gostring \<Rightarrow> rune list \<Rightarrow> nat \<Rightarrow> unit res" where
  "parseEq lbl src cur =
     andThen (Must lbl src (skipSpace src cur) (rn CHR ''='')) (\<lambda>_ c.
     (Inr (), skipSpace src c))"

section \<open>References\<close>

datatype Ref =
    EntityRef (Name: gostring)
  | CharRef (Prefix: gostring) (Value: gostring)

function parseCharRef_hex :: "rune list \<Rightarrow> gostring \<Rightarrow> nat \<Rightarrow> gostring \<times> nat" where
  "parseCharRef_hex src v cur =
     (let r = Get src cur
      in if isNum r \<or> isAlpha r then parseCharRef_hex src (v @ [r]) (Step cur)
         else (v, cur))"
  by pat_completeness auto
termination
  by (relation "measure (\<lambda>(src, v, cur). length src - cur)")
    (auto simp: Get_def Step_def isNum_def isAlpha_def EOF_def split: if_splits)

declare parseCharRef_hex.simps [simp del]

function parseCharRef_dec :: "rune list \<Rightarrow> gostring \<Rightarrow> nat \<Rightarrow> gostring \<times> nat" where
  "parseCharRef_dec src v cur =
     (let r = Get src cur
      in if isNum r then parseCharRef_dec src (v @ [r]) (Step cur)
         else (v, cur))"
  by pat_completeness auto
termination
  by (relation "measure (\<lambda>(src, v, cur). length src - cur)")
    (auto simp: Get_def Step_def isNum_def EOF_def split: if_splits)

declare parseCharRef_dec.simps [simp del]

definition parseCharRef :: "gostring \<Rightarrow> rune list \<Rightarrow> nat \<Rightarrow> Ref res" where
  "parseCharRef lbl src cur =
     (if Tests src cur (runes ''&#x'') then
        (let c1 = StepN (length ''&#x'') cur; r = Get src c1
         in if \<not> isNum r \<and> \<not> isAlpha r
            then error lbl c1 (Message ''expected number or alphabet character'')
            else (case parseCharRef_hex src [] c1 of (v, c2) \<Rightarrow>
              andThen (Must lbl src c2 (rn CHR '';'')) (\<lambda>_ c3.
              (Inr (CharRef (runes ''&#x'') v), c3))))
      else if Tests src cur (runes ''&#'') then
        (let c1 = StepN (length ''&#'') cur; r = Get src c1
         in if \<not> isNum r
            then error lbl c1 (Message ''expected number'')
            else (case parseCharRef_dec src [] c1 of (v, c2) \<Rightarrow>
              andThen (Must lbl src c2 (rn CHR '';'')) (\<lambda>_ c3.
              (Inr (CharRef (runes ''&#'') v), c3))))
      else error lbl cur (Message ''expected &#x or &#''))"

definition parseEntityRef :: "unicode \<Rightarrow> gostring \<Rightarrow> rune list \<Rightarrow> nat \<Rightarrow> Ref res" where
  "parseEntityRef U lbl src cur =
     andThen (Must lbl src cur (rn CHR ''&'')) (\<lambda>_ c1.
     andThen (parseName U lbl src c1) (\<lambda>n c2.
     andThen (Must lbl src c2 (rn CHR '';'')) (\<lambda>_ c3.
     (Inr (EntityRef n), c3))))"

definition parseReference :: "unicode \<Rightarrow> gostring \<Rightarrow> rune list \<Rightarrow> nat \<Rightarrow> Ref res" where
  "parseReference U lbl src cur0 =
     (let cur = cur0
      in case parseEntityRef U lbl src cur0 of
           (Inl err, c1) \<Rightarrow>
             (case parseCharRef lbl src cur of
                (Inl err, c2) \<Rightarrow> (Inl err, c2)
              | (Inr cRef, c2) \<Rightarrow> (Inr cRef, c2))
         | (Inr eRef, c1) \<Rightarrow> (Inr eRef, c1))"

datatype PERef = PERef gostring

definition parsePERef :: "unicode \<Rightarrow> gostring \<Rightarrow> rune list \<Rightarrow> nat \<Rightarrow> PERef res" where
  "parsePERef U lbl src cur =
     andThen (Must lbl src cur (rn CHR ''%'')) (\<lambda>_ c1.
     andThen (parseName U lbl src c1) (\<lambda>n c2.
     andThen (Must lbl src c2 (rn CHR '';'')) (\<lambda>_ c3.
     (Inr (PERef n), c3))))"

section \<open>Processing-instruction target\<close>

text \<open>\<^verbatim>\<open>strings.ContainsAny(n, chars)\<close>: some rune of \<open>n\<close> is one of \<open>chars\<close>.\<close>

definition ContainsAny :: "gostring \<Rightarrow> gostring \<Rightarrow> bool" where
  "ContainsAny s chars = list_ex (\<lambda>r. r \<in> set chars) s"

definition parsePITarget :: "unicode \<Rightarrow> gostring \<Rightarrow> rune list \<Rightarrow> nat \<Rightarrow> gostring res" where
  "parsePITarget U lbl src cur =
     andThen (parseName U lbl src cur) (\<lambda>n c.
     if ContainsAny n (runes ''xmlXML'')
     then error lbl c (Message ''PI target can not contain xml'')
     else (Inr n, c))"

section \<open>Cursor movement of the basic operations\<close>

lemma skipSpace_mono: "cur \<le> skipSpace src cur"
proof (induction src cur rule: skipSpace.induct)
  case (1 src cur)
  show ?case
  proof (cases "isSpace (Get src cur)")
    case True
    with 1 have "Step cur \<le> skipSpace src (Step cur)" by simp
    with True show ?thesis by (simp add: Step_def skipSpace.simps [of src cur])
  next
    case False
    then show ?thesis by (simp add: skipSpace.simps [of src cur])
  qed
qed

lemma skipSpace_less: "isSpace (Get src cur) \<Longrightarrow> cur < skipSpace src cur"
  using skipSpace_mono [of "Step cur" src] by (simp add: Step_def skipSpace.simps [of src cur])

lemma Test_less: "Test src cur r \<Longrightarrow> 0 \<le> r \<Longrightarrow> cur < length src"
  by (auto simp: Test_def Get_def EOF_def split: if_splits)

lemma Must_Inr: "Must lbl src cur r = (Inr x, c) \<Longrightarrow> c = Suc cur \<and> Test src cur r"
  by (auto simp: Must_def error_def Step_def split: if_splits)

lemma Must_Inl: "Must lbl src cur r = (Inl e, c) \<Longrightarrow> c = cur"
  by (auto simp: Must_def error_def split: if_splits)

lemma Musts_Inr: "Musts lbl src cur s = (Inr x, c) \<Longrightarrow> c = cur + length s \<and> Tests src cur s"
  by (auto simp: Musts_def error_def StepN_def split: if_splits)

lemma Musts_Inl: "Musts lbl src cur s = (Inl e, c) \<Longrightarrow> c = cur"
  by (auto simp: Musts_def error_def split: if_splits)

lemma parseSpace_Inr: "parseSpace lbl src cur = (Inr x, c) \<Longrightarrow> cur < c"
  by (auto simp: parseSpace_def error_def skipSpace_less split: if_splits)


lemma parseName_loop_mono: "parseName_loop U src n cur = (n', c) \<Longrightarrow> cur \<le> c"
proof (induction U src n cur rule: parseName_loop.induct)
  case (1 U src n cur)
  show ?case
  proof (cases "isNameChar_at U src cur")
    case True
    with 1 have "Step cur \<le> c" by (simp add: parseName_loop.simps [of U src n cur])
    then show ?thesis by (simp add: Step_def)
  next
    case False
    with 1 show ?thesis by (simp add: parseName_loop.simps [of U src n cur])
  qed
qed

lemma parseName_Inr: "parseName U lbl src cur = (Inr n, c) \<Longrightarrow> cur < c"
  by (auto simp: parseName_def error_def Step_def split: if_splits prod.splits
      dest!: parseName_loop_mono)

lemma parseName_Inl: "parseName U lbl src cur = (Inl e, c) \<Longrightarrow> c = cur"
  by (auto simp: parseName_def error_def split: if_splits prod.splits)

lemma parseQuote_Inr: "parseQuote lbl src cur = (Inr q, c) \<Longrightarrow> c = Suc cur \<and> isQuote q \<and> q = Get src cur"
  by (auto simp: parseQuote_def error_def Step_def Let_def split: if_splits)

lemma parseQuote_Inl: "parseQuote lbl src cur = (Inl e, c) \<Longrightarrow> c = cur"
  by (auto simp: parseQuote_def error_def Let_def split: if_splits)

lemma skipSpace_le [simp]: "a \<le> b \<Longrightarrow> a \<le> skipSpace src b"
  using skipSpace_mono [of b src] by (rule order_trans [rotated])

lemma skipSpace_lt [simp]: "a < b \<Longrightarrow> a < skipSpace src b"
  using skipSpace_mono [of b src] by (rule order.strict_trans2 [rotated])

lemma skipSpace_leD: "skipSpace src a \<le> b \<Longrightarrow> a \<le> b"
  using skipSpace_mono [of a src] by (rule order_trans)

lemma skipSpace_ltD: "skipSpace src a < b \<Longrightarrow> a < b"
  using skipSpace_mono [of a src] by (rule order.strict_trans1)

lemmas cursor_simps = le_SucI less_Suc_eq_le Step_def StepN_def andThen_def error_def Let_def
lemmas cursor_splits = prod.splits sum.splits if_splits

lemma parseEq_Inr: "parseEq lbl src cur = (Inr x, c) \<Longrightarrow> cur < c"
  by (auto simp: parseEq_def cursor_simps split: cursor_splits dest!: Must_Inr Must_Inl)

lemma parseEq_Inl: "parseEq lbl src cur = (Inl e, c) \<Longrightarrow> cur \<le> c"
  by (auto simp: parseEq_def cursor_simps split: cursor_splits dest!: Must_Inr Must_Inl)

lemma parseCharRef_hex_mono: "parseCharRef_hex src v cur = (v', c) \<Longrightarrow> cur \<le> c"
proof (induction src v cur rule: parseCharRef_hex.induct)
  case (1 src v cur)
  show ?case
  proof (cases "isNum (Get src cur) \<or> isAlpha (Get src cur)")
    case True
    with 1 have "Step cur \<le> c" by (simp add: parseCharRef_hex.simps [of src v cur])
    then show ?thesis by (simp add: Step_def)
  next
    case False
    with 1 show ?thesis by (simp add: parseCharRef_hex.simps [of src v cur])
  qed
qed

lemma parseCharRef_dec_mono: "parseCharRef_dec src v cur = (v', c) \<Longrightarrow> cur \<le> c"
proof (induction src v cur rule: parseCharRef_dec.induct)
  case (1 src v cur)
  show ?case
  proof (cases "isNum (Get src cur)")
    case True
    with 1 have "Step cur \<le> c" by (simp add: parseCharRef_dec.simps [of src v cur])
    then show ?thesis by (simp add: Step_def)
  next
    case False
    with 1 show ?thesis by (simp add: parseCharRef_dec.simps [of src v cur])
  qed
qed

lemma parseCharRef_Inr: "parseCharRef lbl src cur = (Inr x, c) \<Longrightarrow> cur < c"
  by (auto simp: parseCharRef_def cursor_simps split: cursor_splits
      dest!: Must_Inr Must_Inl parseCharRef_hex_mono parseCharRef_dec_mono)

lemma parseCharRef_Inl: "parseCharRef lbl src cur = (Inl e, c) \<Longrightarrow> cur \<le> c"
  by (auto simp: parseCharRef_def cursor_simps split: cursor_splits
      dest!: Must_Inr Must_Inl parseCharRef_hex_mono parseCharRef_dec_mono)

lemma parseEntityRef_Inr: "parseEntityRef U lbl src cur = (Inr x, c) \<Longrightarrow> cur < c"
  by (auto simp: parseEntityRef_def cursor_simps split: cursor_splits
      dest!: Must_Inr Must_Inl parseName_Inr)


lemma parseReference_Inr: "parseReference U lbl src cur = (Inr x, c) \<Longrightarrow> cur < c"
  by (auto simp: parseReference_def cursor_simps split: cursor_splits
      dest!: parseEntityRef_Inr parseCharRef_Inr)

lemma parseReference_Inl: "parseReference U lbl src cur = (Inl e, c) \<Longrightarrow> cur \<le> c"
  by (auto simp: parseReference_def cursor_simps split: cursor_splits
      dest!: parseCharRef_Inl)

lemma parsePERef_Inr: "parsePERef U lbl src cur = (Inr x, c) \<Longrightarrow> cur < c"
  by (auto simp: parsePERef_def cursor_simps split: cursor_splits
      dest!: Must_Inr Must_Inl parseName_Inr)

lemma parsePERef_Inl: "parsePERef U lbl src cur = (Inl e, c) \<Longrightarrow> cur \<le> c"
  by (auto simp: parsePERef_def cursor_simps split: cursor_splits
      dest!: Must_Inr Must_Inl parseName_Inr parseName_Inl)

lemma parsePITarget_Inr: "parsePITarget U lbl src cur = (Inr x, c) \<Longrightarrow> cur < c"
  by (auto simp: parsePITarget_def cursor_simps split: cursor_splits dest!: parseName_Inr)

lemma parsePITarget_Inl: "parsePITarget U lbl src cur = (Inl e, c) \<Longrightarrow> cur \<le> c"
  by (auto simp: parsePITarget_def cursor_simps split: cursor_splits
      dest!: parseName_Inr parseName_Inl)

section \<open>XML declaration\<close>

datatype XMLDecl = XMLDecl (Version: gostring) (Encoding: gostring) (Standalone: bool)

text \<open>The closure \<^verbatim>\<open>isVerChar\<close> of \<^verbatim>\<open>parseVersionNum\<close>.\<close>

definition isVerChar :: "rune list \<Rightarrow> nat \<Rightarrow> rune \<times> bool" where
  "isVerChar src cur =
     (let r = Get src cur
      in if isNum r \<or> isAlpha r \<or> Test src cur (rn CHR ''_'') \<or> Test src cur (rn CHR ''.'')
            \<or> Test src cur (rn CHR '':'') \<or> Test src cur (rn CHR ''-'')
         then (r, True) else (r, False))"

lemma isVerChar_less: "isVerChar src cur = (r, True) \<Longrightarrow> cur < length src"
  by (auto simp: isVerChar_def Let_def isNum_def isAlpha_def Test_def Get_def EOF_def
      split: if_splits)

function parseVersionNum_loop :: "rune list \<Rightarrow> gostring \<Rightarrow> nat \<Rightarrow> gostring \<times> nat" where
  "parseVersionNum_loop src str cur =
     (case isVerChar src cur of
        (r, ok) \<Rightarrow>
          if \<not> ok then (str, cur)
          else parseVersionNum_loop src (str @ [r]) (Step cur))"
  by pat_completeness auto
termination
  by (relation "measure (\<lambda>(src, str, cur). length src - cur)")
    (auto simp: Step_def dest: isVerChar_less [OF sym])

declare parseVersionNum_loop.simps [simp del]

definition parseVersionNum :: "gostring \<Rightarrow> rune list \<Rightarrow> nat \<Rightarrow> gostring res" where
  "parseVersionNum lbl src cur =
     (case isVerChar src cur of
        (r, ok) \<Rightarrow>
          if \<not> ok then error lbl cur (UnexpectedVersionChar r)
          else (case parseVersionNum_loop src [r] (Step cur) of (str, c) \<Rightarrow> (Inr str, c)))"

definition parseVersion :: "gostring \<Rightarrow> rune list \<Rightarrow> nat \<Rightarrow> gostring res" where
  "parseVersion lbl src cur =
     andThen (parseSpace lbl src cur) (\<lambda>_ c1.
     andThen (Musts lbl src c1 (runes ''version'')) (\<lambda>_ c2.
     andThen (parseEq lbl src c2) (\<lambda>_ c3.
     andThen (parseQuote lbl src c3) (\<lambda>quote c4.
     andThen (parseVersionNum lbl src c4) (\<lambda>ver c5.
     andThen (Must lbl src c5 quote) (\<lambda>_ c6.
     (Inr ver, c6)))))))"

function parseEncName_loop :: "rune list \<Rightarrow> gostring \<Rightarrow> nat \<Rightarrow> gostring \<times> nat" where
  "parseEncName_loop src str cur =
     (if isAlpha (Get src cur) \<or> isNum (Get src cur) \<or> Test src cur (rn CHR ''.'')
         \<or> Test src cur (rn CHR ''_'') \<or> Test src cur (rn CHR ''-'')
      then parseEncName_loop src (str @ [Get src cur]) (Step cur)
      else (str, cur))"
  by pat_completeness auto
termination
  by (relation "measure (\<lambda>(src, str, cur). length src - cur)")
    (auto simp: Step_def isNum_def isAlpha_def Test_def Get_def EOF_def split: if_splits)

declare parseEncName_loop.simps [simp del]

definition parseEncName :: "gostring \<Rightarrow> rune list \<Rightarrow> nat \<Rightarrow> gostring res" where
  "parseEncName lbl src cur =
     (let r = Get src cur
      in if \<not> isAlpha r then error lbl cur (Message ''Encoding name contains non alphabet'')
         else (case parseEncName_loop src [r] (Step cur) of (str, c) \<Rightarrow> (Inr str, c)))"

definition parseEncoding :: "gostring \<Rightarrow> rune list \<Rightarrow> nat \<Rightarrow> gostring res" where
  "parseEncoding lbl src cur =
     andThen (parseSpace lbl src cur) (\<lambda>_ c1.
     andThen (Musts lbl src c1 (runes ''encoding'')) (\<lambda>_ c2.
     andThen (parseEq lbl src c2) (\<lambda>_ c3.
     andThen (parseQuote lbl src c3) (\<lambda>quote c4.
     andThen (parseEncName lbl src c4) (\<lambda>enc c5.
     andThen (Must lbl src c5 quote) (\<lambda>_ c6.
     (Inr enc, c6)))))))"

definition parseStandalone :: "gostring \<Rightarrow> rune list \<Rightarrow> nat \<Rightarrow> bool res" where
  "parseStandalone lbl src cur =
     andThen (parseSpace lbl src cur) (\<lambda>_ c1.
     andThen (Musts lbl src c1 (runes ''standalone'')) (\<lambda>_ c2.
     andThen (parseEq lbl src c2) (\<lambda>_ c3.
     andThen (parseQuote lbl src c3) (\<lambda>quote c4.
     andThen
       (if Tests src c4 (runes ''yes'') then (Inr True, StepN 3 c4)
        else if Tests src c4 (runes ''no'') then (Inr False, StepN 2 c4)
        else error lbl c4 (Message ''expected yes or no'')) (\<lambda>std c5.
     andThen (Must lbl src c5 quote) (\<lambda>_ c6.
     (Inr std, c6)))))))"

text \<open>
  \<^verbatim>\<open>parseXmlDecl\<close> keeps the cursor before it skips white space to look ahead, and
  puts it back before the declaration that wants that white space is parsed, or when
  there is none.
\<close>

definition parseXmlDecl :: "rune list \<Rightarrow> nat \<Rightarrow> XMLDecl res" where
  "parseXmlDecl src cur0 =
     (let lbl = runes ''XML Declaration''
      in andThen (Musts lbl src cur0 (runes ''<?xml'')) (\<lambda>_ c1.
         andThen (parseVersion lbl src c1) (\<lambda>ver c2.
         andThen
           (let cur = c2
            in if Tests src (skipSpace src c2) (runes ''encoding'')
               then parseEncoding lbl src cur
               else (Inr [], cur)) (\<lambda>enc c3.
         andThen
           (let cur = c3
            in if Tests src (skipSpace src c3) (runes ''standalone'')
               then parseStandalone lbl src cur
               else (Inr False, cur)) (\<lambda>std c4.
         andThen (Musts lbl src (skipSpace src c4) (runes ''?>'')) (\<lambda>_ c5.
         (Inr (XMLDecl ver enc std), c5)))))))"

section \<open>Comments, processing instructions, CDATA sections\<close>

function parseComment_loop :: "unicode \<Rightarrow> gostring \<Rightarrow> rune list \<Rightarrow> gostring \<Rightarrow> nat \<Rightarrow> gostring res" where
  "parseComment_loop U lbl src str cur =
     (if \<not> Tests src cur (runes ''--'') then
        (let r = Get src cur
         in if isChar U r then parseComment_loop U lbl src (str @ [r]) (Step cur)
            else error lbl cur (Message ''unexpected character''))
      else (Inr str, cur))"
  by pat_completeness auto
termination
  by (relation "measure (\<lambda>(U, lbl, src, str, cur). length src - cur)")
    (auto simp: Step_def isChar_def Get_def EOF_def split: if_splits)

declare parseComment_loop.simps [simp del]

definition parseComment :: "unicode \<Rightarrow> rune list \<Rightarrow> nat \<Rightarrow> gostring res" where
  "parseComment U src cur =
     (let lbl = runes ''Comment''
      in andThen (Musts lbl src cur (runes ''<!--'')) (\<lambda>_ c1.
         andThen (parseComment_loop U lbl src [] c1) (\<lambda>str c2.
         andThen (Musts lbl src c2 (runes ''-->'')) (\<lambda>_ c3.
         (Inr str, c3)))))"

datatype PI = PI (Target: gostring) (Instruction: gostring)

function parsePI_loop :: "unicode \<Rightarrow> rune list \<Rightarrow> gostring \<Rightarrow> nat \<Rightarrow> gostring \<times> nat" where
  "parsePI_loop U src ins cur =
     (if \<not> Tests src cur (runes ''?>'') \<and> \<not> isEnd src cur \<and> isChar U (Get src cur)
      then parsePI_loop U src (ins @ [Get src cur]) (Step cur)
      else (ins, cur))"
  by pat_completeness auto
termination
  by (relation "measure (\<lambda>(U, src, ins, cur). length src - cur)")
    (auto simp: Step_def isEnd_def)

declare parsePI_loop.simps [simp del]

text \<open>The label that \<^verbatim>\<open>parsePI\<close> sets is \<^verbatim>\<open>"NOTATION"\<close> in the source.\<close>

definition parsePI :: "unicode \<Rightarrow> rune list \<Rightarrow> nat \<Rightarrow> PI res" where
  "parsePI U src cur =
     (let lbl = runes ''NOTATION''
      in andThen (Musts lbl src cur (runes ''<?'')) (\<lambda>_ c1.
         andThen (parsePITarget U lbl src c1) (\<lambda>target c2.
         (case (if isSpace (Get src c2) then parsePI_loop U src [] (skipSpace src c2)
                else ([], c2)) of
            (ins, c3) \<Rightarrow>
              andThen (Musts lbl src c3 (runes ''?>'')) (\<lambda>_ c4.
              (Inr (PI target ins), c4))))))"

function parseCDSect_loop :: "gostring \<Rightarrow> rune list \<Rightarrow> gostring \<Rightarrow> nat \<Rightarrow> gostring res" where
  "parseCDSect_loop lbl src str cur =
     (if \<not> Tests src cur (runes '']]>'') then
        (if isEnd src cur then error lbl cur (Message ''not found CDSect close tag'')
         else parseCDSect_loop lbl src (str @ [Get src cur]) (Step cur))
      else (Inr str, cur))"
  by pat_completeness auto
termination
  by (relation "measure (\<lambda>(lbl, src, str, cur). length src - cur)")
    (auto simp: Step_def isEnd_def)

declare parseCDSect_loop.simps [simp del]

definition parseCDSect :: "gostring \<Rightarrow> rune list \<Rightarrow> nat \<Rightarrow> gostring res" where
  "parseCDSect lbl src cur =
     andThen (Musts lbl src cur (runes ''<![CDATA['')) (\<lambda>_ c1.
     andThen (parseCDSect_loop lbl src [] c1) (\<lambda>str c2.
     (Inr str, StepN (length '']]>'') c2)))"

section \<open>Misc\<close>

datatype Misc = MiscComment gostring | MiscPI PI

text \<open>A run of white space is a Misc with no value: \<^verbatim>\<open>return nil, nil\<close>.\<close>

definition parseMisc :: "unicode \<Rightarrow> gostring \<Rightarrow> rune list \<Rightarrow> nat \<Rightarrow> Misc option res" where
  "parseMisc U lbl src cur =
     (if Tests src cur (runes ''<!--'') then
        andThen (parseComment U src cur) (\<lambda>c c1. (Inr (Some (MiscComment c)), c1))
      else if Tests src cur (runes ''<?'') then
        andThen (parsePI U src cur) (\<lambda>pi c1. (Inr (Some (MiscPI pi)), c1))
      else if isSpace (Get src cur) then (Inr None, skipSpace src cur)
      else error lbl cur (Message ''unknown misc type''))"

lemma parseComment_loop_mono: "parseComment_loop U lbl src str cur = (r, c) \<Longrightarrow> cur \<le> c"
proof (induction U lbl src str cur rule: parseComment_loop.induct)
  case (1 U lbl src str cur)
  show ?case
  proof (cases "\<not> Tests src cur (runes ''--'') \<and> isChar U (Get src cur)")
    case True
    with 1 have "Step cur \<le> c" by (simp add: parseComment_loop.simps [of U lbl src str cur])
    then show ?thesis by (simp add: Step_def)
  next
    case False
    with 1 show ?thesis
      by (auto simp: parseComment_loop.simps [of U lbl src str cur] error_def split: if_splits)
  qed
qed

lemma parseComment_Inr: "parseComment U src cur = (Inr x, c) \<Longrightarrow> cur < c"
  by (auto simp: parseComment_def cursor_simps runes_def split: cursor_splits
      dest!: Musts_Inr parseComment_loop_mono)

lemma parseComment_Inl: "parseComment U src cur = (Inl e, c) \<Longrightarrow> cur \<le> c"
  by (auto simp: parseComment_def cursor_simps runes_def split: cursor_splits
      dest!: Musts_Inr Musts_Inl parseComment_loop_mono)

lemma parsePI_loop_mono: "parsePI_loop U src ins cur = (r, c) \<Longrightarrow> cur \<le> c"
proof (induction U src ins cur rule: parsePI_loop.induct)
  case (1 U src ins cur)
  show ?case
  proof (cases "\<not> Tests src cur (runes ''?>'') \<and> \<not> isEnd src cur \<and> isChar U (Get src cur)")
    case True
    with 1 have "Step cur \<le> c" by (simp add: parsePI_loop.simps [of U src ins cur])
    then show ?thesis by (simp add: Step_def)
  next
    case False
    with 1 show ?thesis
      by (auto simp: parsePI_loop.simps [of U src ins cur] split: if_splits)
  qed
qed

lemma parsePI_Inr: "parsePI U src cur = (Inr x, c) \<Longrightarrow> cur < c"
  by (auto simp: parsePI_def cursor_simps runes_def split: cursor_splits
      dest!: Musts_Inr parsePI_loop_mono parsePITarget_Inr skipSpace_leD)

lemma parsePI_Inl: "parsePI U src cur = (Inl e, c) \<Longrightarrow> cur \<le> c"
  by (auto simp: parsePI_def cursor_simps runes_def split: cursor_splits
      dest!: Musts_Inr Musts_Inl parsePI_loop_mono parsePITarget_Inr parsePITarget_Inl
        skipSpace_leD)

lemma parseCDSect_loop_mono: "parseCDSect_loop lbl src str cur = (r, c) \<Longrightarrow> cur \<le> c"
proof (induction lbl src str cur rule: parseCDSect_loop.induct)
  case (1 lbl src str cur)
  show ?case
  proof (cases "\<not> Tests src cur (runes '']]>'') \<and> \<not> isEnd src cur")
    case True
    with 1 have "Step cur \<le> c" by (simp add: parseCDSect_loop.simps [of lbl src str cur])
    then show ?thesis by (simp add: Step_def)
  next
    case False
    with 1 show ?thesis
      by (auto simp: parseCDSect_loop.simps [of lbl src str cur] error_def split: if_splits)
  qed
qed

lemma parseCDSect_Inr: "parseCDSect lbl src cur = (Inr x, c) \<Longrightarrow> cur < c"
  by (auto simp: parseCDSect_def cursor_simps runes_def split: cursor_splits
      dest!: Musts_Inr parseCDSect_loop_mono)

lemma parseCDSect_Inl: "parseCDSect lbl src cur = (Inl e, c) \<Longrightarrow> cur \<le> c"
  by (auto simp: parseCDSect_def cursor_simps runes_def split: cursor_splits
      dest!: Musts_Inr Musts_Inl parseCDSect_loop_mono)

lemma parseMisc_Inr: "parseMisc U lbl src cur = (Inr x, c) \<Longrightarrow> cur < c"
  by (auto simp: parseMisc_def cursor_simps skipSpace_less split: cursor_splits
      dest!: parseComment_Inr parsePI_Inr)

section \<open>Literals\<close>

text \<open>
  \<^verbatim>\<open>EntityValue\<close> and \<^verbatim>\<open>AttValue\<close> are slices of \<^verbatim>\<open>interface{}\<close> holding text
  runs, references and (in an entity value only) parameter-entity references.
\<close>

datatype Segment = Str gostring | RefS Ref | PERefS PERef

type_synonym EntityValue = "Segment list"
type_synonym AttValue = "Segment list"

function parseEntityValue_loop ::
  "unicode \<Rightarrow> gostring \<Rightarrow> rune list \<Rightarrow> rune \<Rightarrow> EntityValue \<Rightarrow> gostring \<Rightarrow> nat
     \<Rightarrow> (EntityValue \<times> gostring) res" where
  "parseEntityValue_loop U lbl src quote res str cur0 =
     (if Test src cur0 quote \<or> isEnd src cur0 then (Inr (res, str), cur0)
      else
        (let cur = cur0
         in if Test src cur0 (rn CHR ''&'') then
              (let res1 = (if 0 < length str then res @ [Str str] else res);
                   str1 = (if 0 < length str then [] else str)
               in case parseEntityRef U lbl src cur0 of
                    (Inl err, c1) \<Rightarrow>
                      (case parseCharRef lbl src cur of
                         (Inl err, c2) \<Rightarrow> error lbl c2 (Message ''error AttValue'')
                       | (Inr cRef, c2) \<Rightarrow>
                           parseEntityValue_loop U lbl src quote (res1 @ [RefS cRef]) str1 c2)
                  | (Inr eRef, c1) \<Rightarrow>
                      parseEntityValue_loop U lbl src quote (res1 @ [RefS eRef]) str1 c1)
            else if Test src cur0 (rn CHR ''%'') then
              (let res1 = (if 0 < length str then res @ [Str str] else res);
                   str1 = (if 0 < length str then [] else str)
               in case parsePERef U lbl src cur0 of
                    (Inl err, c1) \<Rightarrow> (Inl err, c1)
                  | (Inr pRef, c1) \<Rightarrow>
                      parseEntityValue_loop U lbl src quote (res1 @ [PERefS pRef]) str1 c1)
            else parseEntityValue_loop U lbl src quote res (str @ [Get src cur0]) (Step cur0)))"
  by pat_completeness auto
termination
  by (relation "measure (\<lambda>(U, lbl, src, quote, res, str, cur). length src - cur)")
    (auto simp: Step_def isEnd_def
      dest!: parseEntityRef_Inr [OF sym] parseCharRef_Inr [OF sym] parsePERef_Inr [OF sym])

declare parseEntityValue_loop.simps [simp del]

definition parseEntityValue :: "unicode \<Rightarrow> gostring \<Rightarrow> rune list \<Rightarrow> nat \<Rightarrow> EntityValue res" where
  "parseEntityValue U lbl src cur =
     andThen (parseQuote lbl src cur) (\<lambda>quote c1.
     andThen (parseEntityValue_loop U lbl src quote [] [] c1) (\<lambda>(res, str) c2.
     (let res1 = (if 0 < length str then res @ [Str str] else res)
      in andThen (Must lbl src c2 quote) (\<lambda>_ c3.
         (Inr res1, c3)))))"

function parseAttValue_loop ::
  "unicode \<Rightarrow> gostring \<Rightarrow> rune list \<Rightarrow> rune \<Rightarrow> AttValue \<Rightarrow> gostring \<Rightarrow> nat
     \<Rightarrow> (AttValue \<times> gostring) res" where
  "parseAttValue_loop U lbl src quote res str cur =
     (if Test src cur (rn CHR ''<'') then error lbl cur (Message ''unexpected <'')
      else if Test src cur quote \<or> isEnd src cur then (Inr (res, str), cur)
      else if Test src cur (rn CHR ''&'') then
        (let res1 = (if 0 < length str then res @ [Str str] else res);
             str1 = (if 0 < length str then [] else str)
         in case parseReference U lbl src cur of
              (Inl err, c1) \<Rightarrow> (Inl err, c1)
            | (Inr ref, c1) \<Rightarrow> parseAttValue_loop U lbl src quote (res1 @ [RefS ref]) str1 c1)
      else parseAttValue_loop U lbl src quote res (str @ [Get src cur]) (Step cur))"
  by pat_completeness auto
termination
  by (relation "measure (\<lambda>(U, lbl, src, quote, res, str, cur). length src - cur)")
    (auto simp: Step_def isEnd_def dest!: parseReference_Inr [OF sym])

declare parseAttValue_loop.simps [simp del]

definition parseAttValue :: "unicode \<Rightarrow> gostring \<Rightarrow> rune list \<Rightarrow> nat \<Rightarrow> AttValue res" where
  "parseAttValue U lbl src cur =
     andThen (parseQuote lbl src cur) (\<lambda>quote c1.
     andThen (parseAttValue_loop U lbl src quote [] [] c1) (\<lambda>(res, str) c2.
     (let res1 = (if 0 < length str then res @ [Str str] else res)
      in andThen (Must lbl src c2 quote) (\<lambda>_ c3.
         (Inr res1, c3)))))"

text \<open>
  In \<^verbatim>\<open>parseSystemLiteral\<close> the loop body appends and steps before it tests for the
  end of input.
\<close>

function parseSystemLiteral_loop :: "gostring \<Rightarrow> rune list \<Rightarrow> rune \<Rightarrow> gostring \<Rightarrow> nat \<Rightarrow> gostring res" where
  "parseSystemLiteral_loop lbl src quote lit cur =
     (if \<not> Test src cur quote then
        (let lit1 = lit @ [Get src cur]; c1 = Step cur
         in if isEnd src c1 then error lbl c1 (CouldNotFindQuote quote)
            else parseSystemLiteral_loop lbl src quote lit1 c1)
      else (Inr lit, cur))"
  by pat_completeness auto
termination
  by (relation "measure (\<lambda>(lbl, src, quote, lit, cur). length src - cur)")
    (auto simp: Step_def isEnd_def)

declare parseSystemLiteral_loop.simps [simp del]

definition parseSystemLiteral :: "gostring \<Rightarrow> rune list \<Rightarrow> nat \<Rightarrow> gostring res" where
  "parseSystemLiteral lbl src cur =
     andThen (parseQuote lbl src cur) (\<lambda>quote c1.
     andThen (parseSystemLiteral_loop lbl src quote [] c1) (\<lambda>lit c2.
     (Inr lit, Step c2)))"

function parsePubidLiteral_loop :: "rune list \<Rightarrow> rune \<Rightarrow> gostring \<Rightarrow> nat \<Rightarrow> gostring \<times> nat" where
  "parsePubidLiteral_loop src quote lit cur =
     (let r = Get src cur
      in if isPubidChar r then
           (if r = rn CHR 0x27 \<and> quote = rn CHR 0x27 then (lit, cur)
            else parsePubidLiteral_loop src quote (lit @ [r]) (Step cur))
         else (lit, cur))"
  by pat_completeness auto
termination
  by (relation "measure (\<lambda>(src, quote, lit, cur). length src - cur)")
    (auto simp: Step_def isPubidChar_def isAlpha_def isNum_def runes_def Get_def EOF_def
      split: if_splits)

declare parsePubidLiteral_loop.simps [simp del]

definition parsePubidLiteral :: "gostring \<Rightarrow> rune list \<Rightarrow> nat \<Rightarrow> gostring res" where
  "parsePubidLiteral lbl src cur =
     andThen (parseQuote lbl src cur) (\<lambda>quote c1.
     (case parsePubidLiteral_loop src quote [] c1 of
        (lit, c2) \<Rightarrow>
          andThen (Must lbl src c2 quote) (\<lambda>_ c3.
          (Inr lit, c3))))"

lemma parseAttValue_loop_mono:
  "parseAttValue_loop U lbl src quote res str cur = (r, c) \<Longrightarrow> cur \<le> c"
proof (induction "length src - cur" arbitrary: cur res str r c rule: less_induct)
  case less
  from less.prems show ?case
    by (subst (asm) parseAttValue_loop.simps)
      (auto simp: cursor_simps isEnd_def split: cursor_splits
        dest!: parseReference_Inr parseReference_Inl less.hyps [rotated])
qed

lemma parseAttValue_Inr: "parseAttValue U lbl src cur = (Inr x, c) \<Longrightarrow> cur < c"
  by (auto simp: parseAttValue_def cursor_simps split: cursor_splits
      dest!: parseQuote_Inr Must_Inr parseAttValue_loop_mono)

lemma parseAttValue_Inl: "parseAttValue U lbl src cur = (Inl e, c) \<Longrightarrow> cur \<le> c"
  by (auto simp: parseAttValue_def cursor_simps split: cursor_splits
      dest!: parseQuote_Inr parseQuote_Inl Must_Inr Must_Inl parseAttValue_loop_mono)

lemma parseEntityValue_loop_mono:
  "parseEntityValue_loop U lbl src quote res str cur = (r, c) \<Longrightarrow> cur \<le> c"
proof (induction "length src - cur" arbitrary: cur res str r c rule: less_induct)
  case less
  from less.prems show ?case
    by (subst (asm) parseEntityValue_loop.simps)
      (auto simp: cursor_simps isEnd_def split: cursor_splits
        dest!: parseEntityRef_Inr parseCharRef_Inr parseCharRef_Inl parsePERef_Inr parsePERef_Inl
          less.hyps [rotated])
qed

lemma parseEntityValue_Inr: "parseEntityValue U lbl src cur = (Inr x, c) \<Longrightarrow> cur < c"
  by (auto simp: parseEntityValue_def cursor_simps split: cursor_splits
      dest!: parseQuote_Inr Must_Inr parseEntityValue_loop_mono)

lemma parseEntityValue_Inl: "parseEntityValue U lbl src cur = (Inl e, c) \<Longrightarrow> cur \<le> c"
  by (auto simp: parseEntityValue_def cursor_simps split: cursor_splits
      dest!: parseQuote_Inr parseQuote_Inl Must_Inr Must_Inl parseEntityValue_loop_mono)

lemma parseSystemLiteral_loop_mono:
  "parseSystemLiteral_loop lbl src quote lit cur = (r, c) \<Longrightarrow> cur \<le> c"
proof (induction "length src - cur" arbitrary: cur lit r c rule: less_induct)
  case less
  from less.prems show ?case
    by (subst (asm) parseSystemLiteral_loop.simps)
      (auto simp: cursor_simps isEnd_def split: cursor_splits dest!: less.hyps [rotated])
qed

lemma parseSystemLiteral_Inr: "parseSystemLiteral lbl src cur = (Inr x, c) \<Longrightarrow> cur < c"
  by (auto simp: parseSystemLiteral_def cursor_simps split: cursor_splits
      dest!: parseQuote_Inr parseSystemLiteral_loop_mono)

lemma parseSystemLiteral_Inl: "parseSystemLiteral lbl src cur = (Inl e, c) \<Longrightarrow> cur \<le> c"
  by (auto simp: parseSystemLiteral_def cursor_simps split: cursor_splits
      dest!: parseQuote_Inr parseQuote_Inl parseSystemLiteral_loop_mono)

lemma isPubidChar_less: "isPubidChar (Get src cur) \<Longrightarrow> cur < length src"
  by (auto simp: isPubidChar_def isAlpha_def isNum_def runes_def Get_def EOF_def
      split: if_splits)

lemma parsePubidLiteral_loop_mono:
  "parsePubidLiteral_loop src quote lit cur = (r, c) \<Longrightarrow> cur \<le> c"
proof (induction "length src - cur" arbitrary: cur lit r c rule: less_induct)
  case less
  from less.prems show ?case
    by (subst (asm) parsePubidLiteral_loop.simps)
      (auto simp: cursor_simps split: cursor_splits
        dest!: less.hyps [rotated] dest: isPubidChar_less)
qed

lemma parsePubidLiteral_Inr: "parsePubidLiteral lbl src cur = (Inr x, c) \<Longrightarrow> cur < c"
  by (auto simp: parsePubidLiteral_def cursor_simps split: cursor_splits
      dest!: parseQuote_Inr Must_Inr parsePubidLiteral_loop_mono)

lemma parsePubidLiteral_Inl: "parsePubidLiteral lbl src cur = (Inl e, c) \<Longrightarrow> cur \<le> c"
  by (auto simp: parsePubidLiteral_def cursor_simps split: cursor_splits
      dest!: parseQuote_Inr parseQuote_Inl Must_Inr Must_Inl parsePubidLiteral_loop_mono)

section \<open>Elements and their content\<close>

datatype Attribute = Attribute (AttrName: gostring) (AttrValue: AttValue)

datatype Element = Element (ElemName: gostring) (Attrs: "Attribute list")
    (Contents: "Content list") (IsEmptyTag: bool)
and Content =
    CharData gostring
  | ElementC Element
  | RefC Ref
  | CDataC gostring
  | PIC PI
  | CommentC gostring

definition parseAttribute :: "unicode \<Rightarrow> gostring \<Rightarrow> rune list \<Rightarrow> nat \<Rightarrow> Attribute res" where
  "parseAttribute U lbl src cur =
     andThen (parseName U lbl src cur) (\<lambda>name c1.
     andThen (parseEq lbl src c1) (\<lambda>_ c2.
     andThen (parseAttValue U lbl src c2) (\<lambda>v c3.
     (Inr (Attribute name v), c3))))"

lemma parseAttribute_Inr: "parseAttribute U lbl src cur = (Inr x, c) \<Longrightarrow> cur < c"
  by (auto simp: parseAttribute_def cursor_simps split: cursor_splits
      dest!: parseName_Inr parseEq_Inr parseAttValue_Inr)

lemma parseAttribute_Inl: "parseAttribute U lbl src cur = (Inl e, c) \<Longrightarrow> cur \<le> c"
  by (auto simp: parseAttribute_def cursor_simps split: cursor_splits
      dest!: parseName_Inr parseName_Inl parseEq_Inr parseEq_Inl parseAttValue_Inl)

lemma isSpace_Get_less: "isSpace (Get src cur) \<Longrightarrow> cur < length src"
  by (auto simp: isSpace_def Get_def EOF_def split: if_splits)

text \<open>The loop of \<^verbatim>\<open>parseElement\<close> over the attributes of a start tag.\<close>

function parseElement_attrs ::
  "unicode \<Rightarrow> gostring \<Rightarrow> rune list \<Rightarrow> Attribute list \<Rightarrow> nat \<Rightarrow> Attribute list res" where
  "parseElement_attrs U lbl src attrs cur =
     (if isSpace (Get src cur) then
        (let c1 = skipSpace src cur
         in if Test src c1 (rn CHR ''>'') \<or> Tests src c1 (runes ''/>'') \<or> isEnd src c1
            then (Inr attrs, c1)
            else (case parseAttribute U lbl src c1 of
                    (Inl err, c2) \<Rightarrow> (Inl err, c2)
                  | (Inr attr, c2) \<Rightarrow> parseElement_attrs U lbl src (attrs @ [attr]) c2))
      else (Inr attrs, cur))"
  by pat_completeness auto
termination
  by (relation "measure (\<lambda>(U, lbl, src, attrs, cur). length src - cur)")
    (auto simp: isEnd_def dest!: parseAttribute_Inr [OF sym] skipSpace_ltD dest: isSpace_Get_less)

declare parseElement_attrs.simps [simp del]

lemma parseElement_attrs_mono:
  "parseElement_attrs U lbl src attrs cur = (r, c) \<Longrightarrow> cur \<le> c"
proof (induction "length src - cur" arbitrary: cur attrs r c rule: less_induct)
  case less
  from less.prems show ?case
    by (subst (asm) parseElement_attrs.simps)
      (auto simp: cursor_simps isEnd_def split: cursor_splits
        dest!: parseAttribute_Inr parseAttribute_Inl less.hyps [rotated] skipSpace_ltD skipSpace_leD
        dest: isSpace_Get_less)
qed

definition parseETag :: "unicode \<Rightarrow> gostring \<Rightarrow> rune list \<Rightarrow> nat \<Rightarrow> gostring res" where
  "parseETag U lbl src cur =
     andThen (Musts lbl src cur (runes ''</'')) (\<lambda>_ c1.
     andThen (parseName U lbl src c1) (\<lambda>n c2.
     andThen (Must lbl src (skipSpace src c2) (rn CHR ''>'')) (\<lambda>_ c3.
     (Inr n, c3))))"

lemma parseETag_mono: "parseETag U lbl src cur = (r, c) \<Longrightarrow> cur \<le> c"
  by (auto simp: parseETag_def cursor_simps split: cursor_splits
      dest!: Musts_Inr Musts_Inl parseName_Inr parseName_Inl Must_Inr Must_Inl)

definition isOnlySpaces :: "gostring \<Rightarrow> bool" where
  "isOnlySpaces str = list_all isSpace str"

text \<open>
  The block that \<^verbatim>\<open>parseContents\<close> runs on the pending text before it appends a
  markup item, and once more after the loop:
  \<^verbatim>\<open>if len(charData) > 0 { if !isOnlySpaces(charData) { res = append(res, charData) } }\<close>.
\<close>

definition flushCharData :: "Content list \<Rightarrow> gostring \<Rightarrow> Content list" where
  "flushCharData res charData =
     (if 0 < length charData then
        (if \<not> isOnlySpaces charData then res @ [CharData charData] else res)
      else res)"

function parseElement :: "unicode \<Rightarrow> rune list \<Rightarrow> nat \<Rightarrow> Element res"
  and parseContents ::
    "unicode \<Rightarrow> gostring \<Rightarrow> rune list \<Rightarrow> Content list \<Rightarrow> gostring \<Rightarrow> nat \<Rightarrow> Content list \<times> nat"
where
  "parseElement U src cur0 =
     (case Must (runes ''Element'') src cur0 (rn CHR ''<'') of
        (Inl err, c1) \<Rightarrow> (Inl err, c1)
      | (Inr _, c1) \<Rightarrow>
     (case parseName U (runes ''Element'') src c1 of
        (Inl err, c2) \<Rightarrow> (Inl err, c2)
      | (Inr name, c2) \<Rightarrow>
     (let lbl = name @ runes '' tag''
      in case parseElement_attrs U lbl src [] c2 of
           (Inl err, c3) \<Rightarrow> (Inl err, c3)
         | (Inr attrs, c3) \<Rightarrow>
             if Test src c3 (rn CHR ''>'') then
               (case parseContents U lbl src [] [] (Step c3) of
                  (contents, c4) \<Rightarrow>
                    (case parseETag U lbl src c4 of
                       (Inl err, c5) \<Rightarrow> (Inl err, c5)
                     | (Inr endName, c5) \<Rightarrow>
                         if endName \<noteq> name then error lbl c5 (EndTagMismatch endName name)
                         else (Inr (Element name attrs contents False), c5)))
             else if Tests src c3 (runes ''/>'') then
               (Inr (Element name attrs [] True), StepN (length ''/>'') c3)
             else error lbl c3 (Message ''not found element close tag''))))"
| "parseContents U lbl src res charData cur =
     (if Test src cur (rn CHR ''&'') then
        (case parseReference U lbl src cur of
           (Inl err, c1) \<Rightarrow> (flushCharData res charData, cur)
         | (Inr i, c1) \<Rightarrow>
             parseContents U lbl src (flushCharData res charData @ [RefC i]) [] c1)
      else if Test src cur (rn CHR ''<'') then
        (if Tests src cur (runes ''<!'') then
           (case parseCDSect lbl src cur of
              (Inl err, c1) \<Rightarrow>
                (case parseComment U src cur of
                   (Inl err, c2) \<Rightarrow> (flushCharData res charData, cur)
                 | (Inr i, c2) \<Rightarrow>
                     parseContents U lbl src (flushCharData res charData @ [CommentC i]) [] c2)
            | (Inr i, c1) \<Rightarrow>
                parseContents U lbl src (flushCharData res charData @ [CDataC i]) [] c1)
         else if Tests src cur (runes ''<?'') then
           (case parsePI U src cur of
              (Inl err, c1) \<Rightarrow> (flushCharData res charData, cur)
            | (Inr i, c1) \<Rightarrow>
                parseContents U lbl src (flushCharData res charData @ [PIC i]) [] c1)
         else
           (case parseElement U src cur of
              (Inl err, c1) \<Rightarrow> (flushCharData res charData, cur)
            | (Inr i, c1) \<Rightarrow>
                parseContents U lbl src (flushCharData res charData @ [ElementC i]) [] c1))
      else if isEnd src cur \<or> Tests src cur (runes '']]>'') then
        (flushCharData res charData, cur)
      else parseContents U lbl src res (charData @ [Get src cur]) (Step cur))"
  by pat_completeness auto

text \<open>
  The loop of \<^verbatim>\<open>parseContents\<close> goes on from the cursor that \<^verbatim>\<open>parseElement\<close>
  returns, so the termination of the two rests on a property of \<^verbatim>\<open>parseElement\<close>
  itself: where it succeeds it has moved the cursor forward.
\<close>

lemma parseElement_parseContents_cursor:
  shows "parseElement_parseContents_dom (Inl (U, src, cur0)) \<Longrightarrow>
           (\<forall>e c. parseElement U src cur0 = (Inr e, c) \<longrightarrow> cur0 < c)"
    and "parseElement_parseContents_dom (Inr (U, lbl, src, res, cd, cur)) \<Longrightarrow>
           (\<forall>r c. parseContents U lbl src res cd cur = (r, c) \<longrightarrow> cur \<le> c)"
proof (induct rule: parseElement_parseContents.pinduct)
  case (1 U src cur0)
  note dom = "1.hyps"(1)
  note IH = "1.hyps"(2) [OF sym refl sym refl refl sym refl]
  show ?case
  proof (intro allI impI)
    fix e c
    assume a: "parseElement U src cur0 = (Inr e, c)"
    from a obtain u c1 n c2 as c3 where
      m: "Must (runes ''Element'') src cur0 (rn CHR ''<'') = (Inr u, c1)" and
      n: "parseName U (runes ''Element'') src c1 = (Inr n, c2)" and
      at: "parseElement_attrs U (n @ runes '' tag'') src [] c2 = (Inr as, c3)" and
      rest: "(if Test src c3 (rn CHR ''>'') then
               (case parseContents U (n @ runes '' tag'') src [] [] (Step c3) of
                  (contents, c4) \<Rightarrow>
                    (case parseETag U (n @ runes '' tag'') src c4 of
                       (Inl err, c5) \<Rightarrow> (Inl err, c5)
                     | (Inr endName, c5) \<Rightarrow>
                         if endName \<noteq> n then error (n @ runes '' tag'') c5 (EndTagMismatch endName n)
                         else (Inr (Element n as contents False), c5)))
             else if Tests src c3 (runes ''/>'') then
               (Inr (Element n as [] True), StepN (length ''/>'') c3)
             else error (n @ runes '' tag'') c3 (Message ''not found element close tag'')) = (Inr e, c)"
      by (auto simp: parseElement.psimps [OF dom] Let_def split: prod.splits sum.splits)
    from m n at have lt: "cur0 < c3"
      by (auto dest!: Must_Inr parseName_Inr parseElement_attrs_mono)
    show "cur0 < c"
    proof (cases "Test src c3 (rn CHR ''>'')")
      case True
      obtain cs c4 where pc: "parseContents U (n @ runes '' tag'') src [] [] (Step c3) = (cs, c4)"
        by force
      from IH [OF m n at True] pc have "Step c3 \<le> c4" by blast
      moreover from rest True pc have "c4 \<le> c"
        by (auto simp: error_def split: prod.splits sum.splits if_splits dest!: parseETag_mono)
      ultimately show ?thesis using lt by (simp add: Step_def)
    next
      case False
      with rest lt show ?thesis
        by (auto simp: error_def StepN_def split: if_splits)
    qed
  qed
next
  case (2 U lbl src res charData cur)
  note dom = "2.hyps"(1)
  have I1: "\<And>i c1 r c. Test src cur (rn CHR ''&'') \<Longrightarrow> parseReference U lbl src cur = (Inr i, c1) \<Longrightarrow>
      parseContents U lbl src (flushCharData res charData @ [RefC i]) [] c1 = (r, c) \<Longrightarrow> cur \<le> c"
    using "2.hyps"(2) [OF _ sym refl] parseReference_Inr by fastforce
  have I2: "\<And>e c1 i c2 r c. \<not> Test src cur (rn CHR ''&'') \<Longrightarrow> Test src cur (rn CHR ''<'') \<Longrightarrow>
      Tests src cur (runes ''<!'') \<Longrightarrow> parseCDSect lbl src cur = (Inl e, c1) \<Longrightarrow>
      parseComment U src cur = (Inr i, c2) \<Longrightarrow>
      parseContents U lbl src (flushCharData res charData @ [CommentC i]) [] c2 = (r, c) \<Longrightarrow> cur \<le> c"
    using "2.hyps"(3) [OF _ _ _ sym refl sym refl] parseComment_Inr by fastforce
  have I3: "\<And>i c1 r c. \<not> Test src cur (rn CHR ''&'') \<Longrightarrow> Test src cur (rn CHR ''<'') \<Longrightarrow>
      Tests src cur (runes ''<!'') \<Longrightarrow> parseCDSect lbl src cur = (Inr i, c1) \<Longrightarrow>
      parseContents U lbl src (flushCharData res charData @ [CDataC i]) [] c1 = (r, c) \<Longrightarrow> cur \<le> c"
    using "2.hyps"(4) [OF _ _ _ sym refl] parseCDSect_Inr by fastforce
  have I4: "\<And>i c1 r c. \<not> Test src cur (rn CHR ''&'') \<Longrightarrow> Test src cur (rn CHR ''<'') \<Longrightarrow>
      \<not> Tests src cur (runes ''<!'') \<Longrightarrow> Tests src cur (runes ''<?'') \<Longrightarrow>
      parsePI U src cur = (Inr i, c1) \<Longrightarrow>
      parseContents U lbl src (flushCharData res charData @ [PIC i]) [] c1 = (r, c) \<Longrightarrow> cur \<le> c"
    using "2.hyps"(5) [OF _ _ _ _ sym refl] parsePI_Inr by fastforce
  have I5: "\<And>i c1 r c. \<not> Test src cur (rn CHR ''&'') \<Longrightarrow> Test src cur (rn CHR ''<'') \<Longrightarrow>
      \<not> Tests src cur (runes ''<!'') \<Longrightarrow> \<not> Tests src cur (runes ''<?'') \<Longrightarrow>
      parseElement U src cur = (Inr i, c1) \<Longrightarrow>
      parseContents U lbl src (flushCharData res charData @ [ElementC i]) [] c1 = (r, c) \<Longrightarrow> cur \<le> c"
    using "2.hyps"(6) "2.hyps"(7) [OF _ _ _ _ sym refl] by fastforce
  have I6: "\<And>r c. \<not> Test src cur (rn CHR ''&'') \<Longrightarrow> \<not> Test src cur (rn CHR ''<'') \<Longrightarrow>
      \<not> (isEnd src cur \<or> Tests src cur (runes '']]>'')) \<Longrightarrow>
      parseContents U lbl src res (charData @ [Get src cur]) (Step cur) = (r, c) \<Longrightarrow> cur \<le> c"
    using "2.hyps"(8) by (fastforce simp: Step_def)
  show ?case
  proof (intro allI impI)
    fix r c
    assume a: "parseContents U lbl src res charData cur = (r, c)"
    from a [unfolded parseContents.psimps [OF dom]] show "cur \<le> c"
      by (auto split: if_splits prod.splits sum.splits intro: I1 I2 I3 I4 I5 I6)
  qed
qed

lemma parseElement_total: "All parseElement_parseContents_dom"
proof (relation "inv_image (less_than <*lex*> less_than)
      (\<lambda>x. case x of Inl (U, src, cur) \<Rightarrow> (length src - cur, 0::nat)
         | Inr (U, lbl, src, res, cd, cur) \<Rightarrow> (length src - cur, 1))", goal_cases)
  case 1
  show ?case by (intro wf_inv_image wf_lex_prod wf_less_than)
next
  case (2 U src cur0 x y b xa ya ba xb xc yb bb)
  then show ?case
    by (auto simp: Step_def dest!: Must_Inr [OF sym] parseName_Inr [OF sym]
        parseElement_attrs_mono [OF sym] dest: Test_less)
next
  case 3
  then show ?case
    by (auto simp: Step_def dest!: parseReference_Inr [OF sym] dest: Test_less)
next
  case 4
  then show ?case
    by (auto simp: Step_def dest!: parseComment_Inr [OF sym] dest: Test_less)
next
  case 5
  then show ?case
    by (auto simp: Step_def dest!: parseCDSect_Inr [OF sym] dest: Test_less)
next
  case 6
  then show ?case
    by (auto simp: Step_def dest!: parsePI_Inr [OF sym] dest: Test_less)
next
  case 7
  then show ?case by simp
next
  case (8 U lbl src res charData cur x y b)
  from 8 parseElement_parseContents_cursor(1) [of U src cur] have "cur < y"
    by (metis)
  with 8 show ?case
    by (auto dest: Test_less)
next
  case 9
  then show ?case
    by (auto simp: Step_def isEnd_def)
qed

termination parseElement
  by (rule parseElement_total)

declare parseElement.simps [simp del] parseContents.simps [simp del]


lemma parseContents_mono: "parseContents U lbl src res cd cur = (r, c) \<Longrightarrow> cur \<le> c"
  using parseElement_parseContents_cursor(2) [OF parseElement_total [THEN spec], of U lbl src res cd cur]
  by simp


section \<open>Element type declarations\<close>

datatype CP = CP (cpName: gostring) (cpChoiceSeq: "ChoiceSeq option") (cpSuffix: "rune option")
and ChoiceSeq = Choice "CP list" | Seq "CP list"

datatype Children = Children ChoiceSeq "rune option"

datatype Mixed = Mixed (Names: "gostring list")

datatype ContentSpec = EMPTY | ANY | MixedSpec Mixed | ChildrenSpec Children

datatype ElementDecl = ElementDecl gostring ContentSpec

text \<open>
  The optional repetition suffix that \<^verbatim>\<open>parseCP\<close> and \<^verbatim>\<open>parseChildren\<close> read:
  \<^verbatim>\<open>if p.Test('?') || p.Test('*') || p.Test('+') { r := p.Get(); x.Suffix = &r; p.Step() }\<close>.
\<close>

definition parseSuffix :: "rune list \<Rightarrow> nat \<Rightarrow> rune option \<times> nat" where
  "parseSuffix src cur =
     (if Test src cur (rn CHR ''?'') \<or> Test src cur (rn CHR ''*'') \<or> Test src cur (rn CHR ''+'')
      then (Some (Get src cur), Step cur)
      else (None, cur))"

lemma parseSuffix_mono: "parseSuffix src cur = (r, c) \<Longrightarrow> cur \<le> c"
  by (auto simp: parseSuffix_def Step_def split: if_splits)

function parseCP :: "unicode \<Rightarrow> gostring \<Rightarrow> rune list \<Rightarrow> nat \<Rightarrow> CP res"
  and parseChoice :: "unicode \<Rightarrow> gostring \<Rightarrow> rune list \<Rightarrow> nat \<Rightarrow> ChoiceSeq res"
  and parseChoice_loop :: "unicode \<Rightarrow> gostring \<Rightarrow> rune list \<Rightarrow> CP list \<Rightarrow> nat \<Rightarrow> CP list res"
  and parseSeq :: "unicode \<Rightarrow> gostring \<Rightarrow> rune list \<Rightarrow> nat \<Rightarrow> ChoiceSeq res"
  and parseSeq_loop :: "unicode \<Rightarrow> gostring \<Rightarrow> rune list \<Rightarrow> CP list \<Rightarrow> nat \<Rightarrow> CP list res"
where
  "parseCP U lbl src cur0 =
     (if Test src cur0 (rn CHR ''('') then
        (let cur = cur0
         in case parseChoice U lbl src cur0 of
              (Inl err, c1) \<Rightarrow>
                (case parseSeq U lbl src cur of
                   (Inl err, c2) \<Rightarrow> (Inl err, c2)
                 | (Inr seq, c2) \<Rightarrow>
                     (case parseSuffix src c2 of
                        (suffix, c3) \<Rightarrow> (Inr (CP [] (Some seq) suffix), c3)))
            | (Inr choice, c1) \<Rightarrow>
                (case parseSuffix src c1 of
                   (suffix, c3) \<Rightarrow> (Inr (CP [] (Some choice) suffix), c3)))
      else
        (case parseName U lbl src cur0 of
           (Inl err, c1) \<Rightarrow> (Inl err, c1)
         | (Inr n, c1) \<Rightarrow>
             (case parseSuffix src c1 of
                (suffix, c3) \<Rightarrow> (Inr (CP n None suffix), c3))))"
| "parseChoice U lbl src cur =
     (case Must lbl src cur (rn CHR ''('') of
        (Inl err, c1) \<Rightarrow> (Inl err, c1)
      | (Inr _, c1) \<Rightarrow>
     (case parseCP U lbl src (skipSpace src c1) of
        (Inl err, c2) \<Rightarrow> (Inl err, c2)
      | (Inr cp, c2) \<Rightarrow>
     (case parseChoice_loop U lbl src [cp] c2 of
        (Inl err, c3) \<Rightarrow> (Inl err, c3)
      | (Inr cps, c3) \<Rightarrow>
     (case Must lbl src c3 (rn CHR '')'') of
        (Inl err, c4) \<Rightarrow> (Inl err, c4)
      | (Inr _, c4) \<Rightarrow> (Inr (Choice cps), c4)))))"
| "parseChoice_loop U lbl src cps cur =
     (let c1 = skipSpace src cur
      in if \<not> Test src c1 (rn CHR ''|'') then (Inr cps, c1)
         else (case parseCP U lbl src (Step c1) of
                 (Inl err, c2) \<Rightarrow> (Inl err, c2)
               | (Inr cp, c2) \<Rightarrow> parseChoice_loop U lbl src (cps @ [cp]) c2))"
| "parseSeq U lbl src cur =
     (case Must lbl src cur (rn CHR ''('') of
        (Inl err, c1) \<Rightarrow> (Inl err, c1)
      | (Inr _, c1) \<Rightarrow>
     (case parseCP U lbl src (skipSpace src c1) of
        (Inl err, c2) \<Rightarrow> (Inl err, c2)
      | (Inr cp, c2) \<Rightarrow>
     (case parseSeq_loop U lbl src [cp] c2 of
        (Inl err, c3) \<Rightarrow> (Inl err, c3)
      | (Inr cps, c3) \<Rightarrow>
     (case Must lbl src c3 (rn CHR '')'') of
        (Inl err, c4) \<Rightarrow> (Inl err, c4)
      | (Inr _, c4) \<Rightarrow> (Inr (Seq cps), c4)))))"
| "parseSeq_loop U lbl src cps cur =
     (let c1 = skipSpace src cur
      in if \<not> Test src c1 (rn CHR '','') then (Inr cps, c1)
         else (case parseCP U lbl src (Step c1) of
                 (Inl err, c2) \<Rightarrow> (Inl err, c2)
               | (Inr cp, c2) \<Rightarrow> parseSeq_loop U lbl src (cps @ [cp]) c2))"
  by pat_completeness auto

text \<open>
  \<^verbatim>\<open>parseChoice\<close> and \<^verbatim>\<open>parseSeq\<close> go on from the cursor that \<^verbatim>\<open>parseCP\<close>
  returns; their termination rests on the fact that no operation returns a cursor
  before the one it was entered with.
\<close>

lemma parseCP_cursor:
  shows "parseCP_parseChoice_parseChoice_loop_parseSeq_parseSeq_loop_dom (Inl (Inl (U, lbl, src, cur))) \<Longrightarrow>
           (\<forall>r c. parseCP U lbl src cur = (r, c) \<longrightarrow> cur \<le> c)"
    and "parseCP_parseChoice_parseChoice_loop_parseSeq_parseSeq_loop_dom (Inl (Inr (U, lbl, src, cur))) \<Longrightarrow>
           (\<forall>r c. parseChoice U lbl src cur = (r, c) \<longrightarrow> cur \<le> c)"
    and "parseCP_parseChoice_parseChoice_loop_parseSeq_parseSeq_loop_dom (Inr (Inl (U, lbl, src, cps, cur))) \<Longrightarrow>
           (\<forall>r c. parseChoice_loop U lbl src cps cur = (r, c) \<longrightarrow> cur \<le> c)"
    and "parseCP_parseChoice_parseChoice_loop_parseSeq_parseSeq_loop_dom (Inr (Inr (Inl (U, lbl, src, cur)))) \<Longrightarrow>
           (\<forall>r c. parseSeq U lbl src cur = (r, c) \<longrightarrow> cur \<le> c)"
    and "parseCP_parseChoice_parseChoice_loop_parseSeq_parseSeq_loop_dom (Inr (Inr (Inr (U, lbl, src, cps, cur)))) \<Longrightarrow>
           (\<forall>r c. parseSeq_loop U lbl src cps cur = (r, c) \<longrightarrow> cur \<le> c)"
proof (induct rule: parseCP_parseChoice_parseChoice_loop_parseSeq_parseSeq_loop.pinduct)
  case (1 U lbl src cur0)
  note dom = "1.hyps"(1)
  have A: "\<And>x c1 s c. Test src cur0 (rn CHR ''('') \<Longrightarrow> parseChoice U lbl src cur0 = (Inr x, c1) \<Longrightarrow>
      parseSuffix src c1 = (s, c) \<Longrightarrow> cur0 \<le> c"
    using "1.hyps"(2) [OF _ refl] parseSuffix_mono by fastforce
  have B: "\<And>a c1 r c. Test src cur0 (rn CHR ''('') \<Longrightarrow> parseChoice U lbl src cur0 = (Inl a, c1) \<Longrightarrow>
      parseSeq U lbl src cur0 = (r, c) \<Longrightarrow> cur0 \<le> c"
    using "1.hyps"(3) [OF _ refl sym refl] by blast
  have B': "\<And>a c1 x c2 s c. Test src cur0 (rn CHR ''('') \<Longrightarrow> parseChoice U lbl src cur0 = (Inl a, c1) \<Longrightarrow>
      parseSeq U lbl src cur0 = (Inr x, c2) \<Longrightarrow> parseSuffix src c2 = (s, c) \<Longrightarrow> cur0 \<le> c"
    using B parseSuffix_mono by fastforce
  have C: "\<And>n c1 s c. parseName U lbl src cur0 = (Inr n, c1) \<Longrightarrow> parseSuffix src c1 = (s, c) \<Longrightarrow> cur0 \<le> c"
    using parseName_Inr parseSuffix_mono by fastforce
  have D: "\<And>e c. parseName U lbl src cur0 = (Inl e, c) \<Longrightarrow> cur0 \<le> c"
    using parseName_Inl by fastforce
  show ?case
  proof (intro allI impI)
    fix r c
    assume a: "parseCP U lbl src cur0 = (r, c)"
    from a [unfolded parseCP.psimps [OF dom]] show "cur0 \<le> c"
      by (auto simp: Let_def split: if_splits prod.splits sum.splits intro: A B B' C D)
  qed
next
  case (2 U lbl src cur)
  note dom = "2.hyps"(1)
  have A: "\<And>b y r c. Must lbl src cur (rn CHR ''('') = (Inr b, y) \<Longrightarrow>
      parseCP U lbl src (skipSpace src y) = (r, c) \<Longrightarrow> cur \<le> c"
    using "2.hyps"(2) [OF sym refl] Must_Inr skipSpace_mono
    by (metis Suc_leD dual_order.trans)
  have B: "\<And>b y cp ya r c. Must lbl src cur (rn CHR ''('') = (Inr b, y) \<Longrightarrow>
      parseCP U lbl src (skipSpace src y) = (Inr cp, ya) \<Longrightarrow>
      parseChoice_loop U lbl src [cp] ya = (r, c) \<Longrightarrow> cur \<le> c"
    using "2.hyps"(3) [OF sym refl sym refl] A by (meson order_trans)
  have C: "\<And>b y cp ya cps c3 r c. Must lbl src cur (rn CHR ''('') = (Inr b, y) \<Longrightarrow>
      parseCP U lbl src (skipSpace src y) = (Inr cp, ya) \<Longrightarrow>
      parseChoice_loop U lbl src [cp] ya = (Inr cps, c3) \<Longrightarrow>
      Must lbl src c3 (rn CHR '')'') = (r, c) \<Longrightarrow> cur \<le> c"
  proof -
    fix b y cp ya cps c3 r c
    assume h: "Must lbl src cur (rn CHR ''('') = (Inr b, y)"
      "parseCP U lbl src (skipSpace src y) = (Inr cp, ya)"
      "parseChoice_loop U lbl src [cp] ya = (Inr cps, c3)"
      "Must lbl src c3 (rn CHR '')'') = (r, c)"
    from B [OF h(1,2,3)] have "cur \<le> c3" .
    moreover from h(4) have "c3 \<le> c"
      by (cases r) (auto dest!: Must_Inr Must_Inl)
    ultimately show "cur \<le> c" by simp
  qed
  have D: "\<And>e c. Must lbl src cur (rn CHR ''('') = (Inl e, c) \<Longrightarrow> cur \<le> c"
    using Must_Inl by fastforce
  show ?case
  proof (intro allI impI)
    fix r c
    assume a: "parseChoice U lbl src cur = (r, c)"
    from a [unfolded parseChoice.psimps [OF dom]] show "cur \<le> c"
      by (auto simp: Let_def split: if_splits prod.splits sum.splits intro: A B C D)
  qed
next
  case (3 U lbl src cps cur)
  note dom = "3.hyps"(1)
  have A: "\<And>r c. Test src (skipSpace src cur) (rn CHR ''|'') \<Longrightarrow>
      parseCP U lbl src (Step (skipSpace src cur)) = (r, c) \<Longrightarrow> cur \<le> c"
  proof -
    fix r c
    assume t: "Test src (skipSpace src cur) (rn CHR ''|'')"
      and p: "parseCP U lbl src (Step (skipSpace src cur)) = (r, c)"
    from "3.hyps"(2) [OF refl] t p have "Step (skipSpace src cur) \<le> c" by simp
    with skipSpace_mono [of cur src] show "cur \<le> c" unfolding Step_def by linarith
  qed
  have B: "\<And>cp y r c. Test src (skipSpace src cur) (rn CHR ''|'') \<Longrightarrow>
      parseCP U lbl src (Step (skipSpace src cur)) = (Inr cp, y) \<Longrightarrow>
      parseChoice_loop U lbl src (cps @ [cp]) y = (r, c) \<Longrightarrow> cur \<le> c"
    using "3.hyps"(3) [OF refl _ sym refl] A by (meson order_trans notnotD)
  show ?case
  proof (intro allI impI)
    fix r c
    assume a: "parseChoice_loop U lbl src cps cur = (r, c)"
    from a [unfolded parseChoice_loop.psimps [OF dom]] show "cur \<le> c"
      by (auto simp: Let_def split: if_splits prod.splits sum.splits intro: A B)
  qed
next
  case (4 U lbl src cur)
  note dom = "4.hyps"(1)
  have A: "\<And>b y r c. Must lbl src cur (rn CHR ''('') = (Inr b, y) \<Longrightarrow>
      parseCP U lbl src (skipSpace src y) = (r, c) \<Longrightarrow> cur \<le> c"
    using "4.hyps"(2) [OF sym refl] Must_Inr skipSpace_mono
    by (metis Suc_leD dual_order.trans)
  have B: "\<And>b y cp ya r c. Must lbl src cur (rn CHR ''('') = (Inr b, y) \<Longrightarrow>
      parseCP U lbl src (skipSpace src y) = (Inr cp, ya) \<Longrightarrow>
      parseSeq_loop U lbl src [cp] ya = (r, c) \<Longrightarrow> cur \<le> c"
    using "4.hyps"(3) [OF sym refl sym refl] A by (meson order_trans)
  have C: "\<And>b y cp ya cps c3 r c. Must lbl src cur (rn CHR ''('') = (Inr b, y) \<Longrightarrow>
      parseCP U lbl src (skipSpace src y) = (Inr cp, ya) \<Longrightarrow>
      parseSeq_loop U lbl src [cp] ya = (Inr cps, c3) \<Longrightarrow>
      Must lbl src c3 (rn CHR '')'') = (r, c) \<Longrightarrow> cur \<le> c"
  proof -
    fix b y cp ya cps c3 r c
    assume h: "Must lbl src cur (rn CHR ''('') = (Inr b, y)"
      "parseCP U lbl src (skipSpace src y) = (Inr cp, ya)"
      "parseSeq_loop U lbl src [cp] ya = (Inr cps, c3)"
      "Must lbl src c3 (rn CHR '')'') = (r, c)"
    from B [OF h(1,2,3)] have "cur \<le> c3" .
    moreover from h(4) have "c3 \<le> c"
      by (cases r) (auto dest!: Must_Inr Must_Inl)
    ultimately show "cur \<le> c" by simp
  qed
  have D: "\<And>e c. Must lbl src cur (rn CHR ''('') = (Inl e, c) \<Longrightarrow> cur \<le> c"
    using Must_Inl by fastforce
  show ?case
  proof (intro allI impI)
    fix r c
    assume a: "parseSeq U lbl src cur = (r, c)"
    from a [unfolded parseSeq.psimps [OF dom]] show "cur \<le> c"
      by (auto simp: Let_def split: if_splits prod.splits sum.splits intro: A B C D)
  qed
next
  case (5 U lbl src cps cur)
  note dom = "5.hyps"(1)
  have A: "\<And>r c. Test src (skipSpace src cur) (rn CHR '','') \<Longrightarrow>
      parseCP U lbl src (Step (skipSpace src cur)) = (r, c) \<Longrightarrow> cur \<le> c"
  proof -
    fix r c
    assume t: "Test src (skipSpace src cur) (rn CHR '','')"
      and p: "parseCP U lbl src (Step (skipSpace src cur)) = (r, c)"
    from "5.hyps"(2) [OF refl] t p have "Step (skipSpace src cur) \<le> c" by simp
    with skipSpace_mono [of cur src] show "cur \<le> c" unfolding Step_def by linarith
  qed
  have B: "\<And>cp y r c. Test src (skipSpace src cur) (rn CHR '','') \<Longrightarrow>
      parseCP U lbl src (Step (skipSpace src cur)) = (Inr cp, y) \<Longrightarrow>
      parseSeq_loop U lbl src (cps @ [cp]) y = (r, c) \<Longrightarrow> cur \<le> c"
    using "5.hyps"(3) [OF refl _ sym refl] A by (meson order_trans notnotD)
  show ?case
  proof (intro allI impI)
    fix r c
    assume a: "parseSeq_loop U lbl src cps cur = (r, c)"
    from a [unfolded parseSeq_loop.psimps [OF dom]] show "cur \<le> c"
      by (auto simp: Let_def split: if_splits prod.splits sum.splits intro: A B)
  qed
qed

lemma diff_less_cursor: "cur < length src \<Longrightarrow> cur < c \<Longrightarrow> length src - c < length src - (cur::nat)"
  by arith


lemma parseCP_total: "All parseCP_parseChoice_parseChoice_loop_parseSeq_parseSeq_loop_dom"
proof (relation "inv_image (less_than <*lex*> less_than)
      (\<lambda>x. case x of Inl (Inl (U, lbl, src, cur)) \<Rightarrow> (length src - cur, 2::nat)
         | Inl (Inr (U, lbl, src, cur)) \<Rightarrow> (length src - cur, 1)
         | Inr (Inl (U, lbl, src, cps, cur)) \<Rightarrow> (length src - cur, 0)
         | Inr (Inr (Inl (U, lbl, src, cur))) \<Rightarrow> (length src - cur, 1)
         | Inr (Inr (Inr (U, lbl, src, cps, cur))) \<Rightarrow> (length src - cur, 0))", goal_cases)
  case 1
  show ?case by (intro wf_inv_image wf_lex_prod wf_less_than)
next
  case 2
  then show ?case by simp
next
  case 3
  then show ?case by simp
next
  case (4 U lbl src cur x y b)
  then show ?case
    by (auto simp: Step_def dest!: Must_Inr [OF sym] intro!: diff_less_cursor intro: Test_less)
next
  case (5 U lbl src cur x y b xa ya ba)
  from 5 parseCP_cursor(1) [of U lbl src "skipSpace src y"] have "skipSpace src y \<le> ya"
    by metis
  with 5 show ?case
    by (auto simp: Step_def dest!: Must_Inr [OF sym] skipSpace_leD intro!: diff_less_cursor intro: Test_less)
next
  case (6 U lbl src cps cur x)
  then have "x < length src" by (auto intro: Test_less)
  moreover from 6 have "cur \<le> x" by (simp add: skipSpace_mono)
  ultimately show ?case by (simp add: Step_def)
next
  case (7 U lbl src cps cur x xa y b)
  from 7 parseCP_cursor(1) [of U lbl src "Step x"] have "Step x \<le> y"
    by metis
  moreover from 7 have "x < length src" by (auto intro: Test_less)
  moreover from 7 have "cur \<le> x" by (simp add: skipSpace_mono)
  ultimately show ?case by (simp add: Step_def)
next
  case (8 U lbl src cur x y b)
  then show ?case
    by (auto simp: Step_def dest!: Must_Inr [OF sym] intro!: diff_less_cursor intro: Test_less)
next
  case (9 U lbl src cur x y b xa ya ba)
  from 9 parseCP_cursor(1) [of U lbl src "skipSpace src y"] have "skipSpace src y \<le> ya"
    by metis
  with 9 show ?case
    by (auto simp: Step_def dest!: Must_Inr [OF sym] skipSpace_leD intro!: diff_less_cursor intro: Test_less)
next
  case (10 U lbl src cps cur x)
  then have "x < length src" by (auto intro: Test_less)
  moreover from 10 have "cur \<le> x" by (simp add: skipSpace_mono)
  ultimately show ?case by (simp add: Step_def)
next
  case (11 U lbl src cps cur x xa y b)
  from 11 parseCP_cursor(1) [of U lbl src "Step x"] have "Step x \<le> y"
    by metis
  moreover from 11 have "x < length src" by (auto intro: Test_less)
  moreover from 11 have "cur \<le> x" by (simp add: skipSpace_mono)
  ultimately show ?case by (simp add: Step_def)
qed

termination parseCP
  by (rule parseCP_total)

declare parseCP.simps [simp del] parseChoice.simps [simp del] parseChoice_loop.simps [simp del]
  parseSeq.simps [simp del] parseSeq_loop.simps [simp del]

lemma parseCP_mono: "parseCP U lbl src cur = (r, c) \<Longrightarrow> cur \<le> c"
  using parseCP_cursor(1) [OF parseCP_total [THEN spec], of U lbl src cur] by simp

lemma parseChoice_mono: "parseChoice U lbl src cur = (r, c) \<Longrightarrow> cur \<le> c"
  using parseCP_cursor(2) [OF parseCP_total [THEN spec], of U lbl src cur] by simp

lemma parseSeq_mono: "parseSeq U lbl src cur = (r, c) \<Longrightarrow> cur \<le> c"
  using parseCP_cursor(4) [OF parseCP_total [THEN spec], of U lbl src cur] by simp

definition parseChildren :: "unicode \<Rightarrow> gostring \<Rightarrow> rune list \<Rightarrow> nat \<Rightarrow> Children res" where
  "parseChildren U lbl src cur0 =
     (let cur = cur0
      in case parseChoice U lbl src cur0 of
           (Inr choice, c1) \<Rightarrow>
             (case parseSuffix src c1 of
                (suffix, c2) \<Rightarrow> (Inr (Children choice suffix), c2))
         | (Inl err, c1) \<Rightarrow>
             (case parseSeq U lbl src cur of
                (Inr s, c2) \<Rightarrow>
                  (case parseSuffix src c2 of
                     (suffix, c3) \<Rightarrow> (Inr (Children s suffix), c3))
              | (Inl err, c2) \<Rightarrow> error lbl c2 (Message ''unknown error'')))"

function parseMixed_loop :: "unicode \<Rightarrow> gostring \<Rightarrow> rune list \<Rightarrow> gostring list \<Rightarrow> nat \<Rightarrow> gostring list res" where
  "parseMixed_loop U lbl src names cur =
     (let c1 = skipSpace src cur
      in if Test src c1 (rn CHR '')'') then (Inr names, Step c1)
         else if isEnd src c1 then error lbl c1 (Message ''could not find )'')
         else (case Must lbl src c1 (rn CHR ''|'') of
                 (Inl err, c2) \<Rightarrow> (Inl err, c2)
               | (Inr _, c2) \<Rightarrow>
                   (case parseName U lbl src (skipSpace src c2) of
                      (Inl err, c3) \<Rightarrow> (Inl err, c3)
                    | (Inr n, c3) \<Rightarrow> parseMixed_loop U lbl src (names @ [n]) c3)))"
  by pat_completeness auto
termination
proof (relation "measure (\<lambda>(U, lbl, src, names, cur). length src - cur)", goal_cases)
  case 1
  show ?case by simp
next
  case (2 U lbl src names cur x xa y b xb ya ba)
  have a: "cur \<le> x" using 2(1) by (simp add: skipSpace_mono)
  have b: "x < length src" using 2(3) by (simp add: isEnd_def)
  have c: "y = Suc x" using 2(4,5) Must_Inr [of lbl src x _ b y] by simp
  have d: "y \<le> skipSpace src y" by (rule skipSpace_mono)
  have e: "skipSpace src y < ya" using 2(6,7) parseName_Inr [of U lbl src "skipSpace src y" ba ya] by simp
  from c d e have f: "x < ya" by linarith
  from a b f show ?case by simp
qed

declare parseMixed_loop.simps [simp del]

definition parseMixed :: "unicode \<Rightarrow> gostring \<Rightarrow> rune list \<Rightarrow> nat \<Rightarrow> Mixed res" where
  "parseMixed U lbl src cur =
     andThen (Must lbl src cur (rn CHR ''('')) (\<lambda>_ c1.
     andThen (Musts lbl src (skipSpace src c1) (runes ''#PCDATA'')) (\<lambda>_ c2.
     andThen (parseMixed_loop U lbl src [] c2) (\<lambda>names c3.
     if 0 < length names then
       andThen (Must lbl src c3 (rn CHR ''*'')) (\<lambda>_ c4. (Inr (Mixed names), c4))
     else (Inr (Mixed names), c3))))"

definition parseContentSpec :: "unicode \<Rightarrow> gostring \<Rightarrow> rune list \<Rightarrow> nat \<Rightarrow> ContentSpec res" where
  "parseContentSpec U lbl src cur0 =
     (if Tests src cur0 (runes ''EMPTY'') then (Inr EMPTY, StepN (length ''EMPTY'') cur0)
      else if Tests src cur0 (runes ''ANY'') then (Inr ANY, StepN (length ''ANY'') cur0)
      else
        (let cur = cur0
         in case parseMixed U lbl src cur0 of
              (Inr m, c1) \<Rightarrow> (Inr (MixedSpec m), c1)
            | (Inl err, c1) \<Rightarrow>
                (case parseChildren U lbl src cur of
                   (Inl err, c2) \<Rightarrow> (Inl err, c2)
                 | (Inr ch, c2) \<Rightarrow> (Inr (ChildrenSpec ch), c2))))"

definition parseElementDecl :: "unicode \<Rightarrow> rune list \<Rightarrow> nat \<Rightarrow> ElementDecl res" where
  "parseElementDecl U src cur =
     (let lbl = runes ''Element Declaration''
      in andThen (Musts lbl src cur (runes ''<!ELEMENT'')) (\<lambda>_ c1.
         andThen (parseSpace lbl src c1) (\<lambda>_ c2.
         andThen (parseName U lbl src c2) (\<lambda>n c3.
         andThen (parseSpace lbl src c3) (\<lambda>_ c4.
         andThen (parseContentSpec U lbl src c4) (\<lambda>c c5.
         andThen (Must lbl src (skipSpace src c5) (rn CHR ''>'')) (\<lambda>_ c6.
         (Inr (ElementDecl n c), c6))))))))"

section \<open>Attribute types\<close>

text \<open>
  Modelled from the spec: the type \<^verbatim>\<open>AttToken\<close>, its constants and its method
  \<^verbatim>\<open>ToString\<close> are declared outside \<^verbatim>\<open>parser.go\<close>. Section 6 of the specification
  lists the keywords. \<open>AttTokenUnset\<close> stands for the zero value of the type, which
  \<^verbatim>\<open>var tok AttToken\<close> holds when no case of the switch in \<^verbatim>\<open>parseAttType\<close>
  applies.
\<close>

datatype AttToken =
    AttTokenUnset
  | AttTokenCDATA
  | AttTokenID
  | AttTokenIDREF
  | AttTokenIDREFS
  | AttTokenENTITY
  | AttTokenENTITIES
  | AttTokenNMTOKEN
  | AttTokenNMTOKENS

fun ToString :: "AttToken \<Rightarrow> gostring" where
  "ToString AttTokenUnset = []"
| "ToString AttTokenCDATA = runes ''CDATA''"
| "ToString AttTokenID = runes ''ID''"
| "ToString AttTokenIDREF = runes ''IDREF''"
| "ToString AttTokenIDREFS = runes ''IDREFS''"
| "ToString AttTokenENTITY = runes ''ENTITY''"
| "ToString AttTokenENTITIES = runes ''ENTITIES''"
| "ToString AttTokenNMTOKEN = runes ''NMTOKEN''"
| "ToString AttTokenNMTOKENS = runes ''NMTOKENS''"

datatype AttType =
    TokenType AttToken
  | NotationType "gostring list"
  | Enum "gostring list"

lemma isNameChar_less: "isNameChar U (Get src cur) \<Longrightarrow> cur < length src"
  by (auto simp: isNameChar_def isLetter_def isDigit_def isCombining_def isExtender_def
      isAlpha_def isNum_def Get_def EOF_def split: if_splits)

function parseNmtoken_loop :: "unicode \<Rightarrow> rune list \<Rightarrow> gostring \<Rightarrow> nat \<Rightarrow> gostring \<times> nat" where
  "parseNmtoken_loop U src str cur =
     (let r = Get src cur
      in if isNameChar U r then parseNmtoken_loop U src (str @ [r]) (Step cur)
         else (str, cur))"
  by pat_completeness auto
termination
  by (relation "measure (\<lambda>(U, src, str, cur). length src - cur)")
    (auto simp: Step_def dest: isNameChar_less)

declare parseNmtoken_loop.simps [simp del]

definition parseNmtoken :: "unicode \<Rightarrow> gostring \<Rightarrow> rune list \<Rightarrow> nat \<Rightarrow> gostring res" where
  "parseNmtoken U lbl src cur =
     (case parseNmtoken_loop U src [] cur of
        (str, c) \<Rightarrow>
          if length str = 0 then error lbl c (Message ''empty Nmtoken'')
          else (Inr str, c))"

lemma parseNmtoken_loop_length:
  "parseNmtoken_loop U src str cur = (s, c) \<Longrightarrow> cur \<le> c \<and> length s = length str + (c - cur)"
proof (induction U src str cur rule: parseNmtoken_loop.induct)
  case (1 U src str cur)
  show ?case
  proof (cases "isNameChar U (Get src cur)")
    case True
    with "1.prems" have "parseNmtoken_loop U src (str @ [Get src cur]) (Step cur) = (s, c)"
      by (simp add: parseNmtoken_loop.simps [of U src str cur])
    from "1.IH" [OF refl True this] show ?thesis by (auto simp: Step_def)
  next
    case False
    with "1.prems" show ?thesis by (simp add: parseNmtoken_loop.simps [of U src str cur])
  qed
qed

lemma parseNmtoken_Inr:
  assumes "parseNmtoken U lbl src cur = (Inr x, c)"
  shows "cur < c"
proof -
  obtain s c' where l: "parseNmtoken_loop U src [] cur = (s, c')" by force
  with assms have "s \<noteq> []" and "c = c'"
    by (auto simp: parseNmtoken_def error_def split: if_splits)
  moreover from parseNmtoken_loop_length [OF l] have "length s = c' - cur" by simp
  ultimately show ?thesis by (cases s) auto
qed

function parseNotationType_loop ::
  "unicode \<Rightarrow> gostring \<Rightarrow> rune list \<Rightarrow> gostring list \<Rightarrow> nat \<Rightarrow> gostring list res" where
  "parseNotationType_loop U lbl src names cur0 =
     (let cur = cur0; c1 = skipSpace src cur0
      in if Test src c1 (rn CHR '')'') then (Inr names, Step c1)
         else if isEnd src c1 then error lbl c1 (Message ''expected )'')
         else (case Must lbl src (skipSpace src cur) (rn CHR ''|'') of
                 (Inl err, c2) \<Rightarrow> (Inl err, c2)
               | (Inr _, c2) \<Rightarrow>
                   (case parseName U lbl src (skipSpace src c2) of
                      (Inl err, c3) \<Rightarrow> (Inl err, c3)
                    | (Inr t, c3) \<Rightarrow> parseNotationType_loop U lbl src (names @ [t]) c3)))"
  by pat_completeness auto
termination
proof (relation "measure (\<lambda>(U, lbl, src, names, cur). length src - cur)", goal_cases)
  case 1
  show ?case by simp
next
  case (2 U lbl src names cur0 x xa xb y b xc ya ba)
  have a: "cur0 \<le> xa" using 2(1,2) by (simp add: skipSpace_mono)
  have b: "xa < length src" using 2(4) by (simp add: isEnd_def)
  have c: "y = Suc xa" using 2(1,2,5,6) Must_Inr [of lbl src xa _ b y] by simp
  have d: "y \<le> skipSpace src y" by (rule skipSpace_mono)
  have e: "skipSpace src y < ya"
    using 2(7,8) parseName_Inr [of U lbl src "skipSpace src y" ba ya] by simp
  from c d e have f: "xa < ya" by linarith
  from a b f show ?case by simp
qed

declare parseNotationType_loop.simps [simp del]

definition parseNotationType :: "unicode \<Rightarrow> gostring \<Rightarrow> rune list \<Rightarrow> nat \<Rightarrow> AttType res" where
  "parseNotationType U lbl src cur =
     andThen (Musts lbl src cur (runes ''NOTATION'')) (\<lambda>_ c1.
     andThen (parseSpace lbl src c1) (\<lambda>_ c2.
     andThen (Must lbl src c2 (rn CHR ''('')) (\<lambda>_ c3.
     andThen (parseName U lbl src (skipSpace src c3)) (\<lambda>t c4.
     andThen (parseNotationType_loop U lbl src [t] c4) (\<lambda>names c5.
     (Inr (NotationType names), c5))))))"

function parseEnum_loop ::
  "unicode \<Rightarrow> gostring \<Rightarrow> rune list \<Rightarrow> gostring list \<Rightarrow> nat \<Rightarrow> gostring list res" where
  "parseEnum_loop U lbl src cases cur0 =
     (let cur = cur0; c1 = skipSpace src cur0
      in if Test src c1 (rn CHR '')'') then (Inr cases, Step c1)
         else if isEnd src c1 then error lbl c1 (Message ''expected )'')
         else (case Must lbl src (skipSpace src cur) (rn CHR ''|'') of
                 (Inl err, c2) \<Rightarrow> (Inl err, c2)
               | (Inr _, c2) \<Rightarrow>
                   (case parseNmtoken U lbl src (skipSpace src c2) of
                      (Inl err, c3) \<Rightarrow> (Inl err, c3)
                    | (Inr nm, c3) \<Rightarrow> parseEnum_loop U lbl src (cases @ [nm]) c3)))"
  by pat_completeness auto
termination
proof (relation "measure (\<lambda>(U, lbl, src, cases, cur). length src - cur)", goal_cases)
  case 1
  show ?case by simp
next
  case (2 U lbl src cases cur0 x xa xb y b xc ya ba)
  have a: "cur0 \<le> xa" using 2(1,2) by (simp add: skipSpace_mono)
  have b: "xa < length src" using 2(4) by (simp add: isEnd_def)
  have c: "y = Suc xa" using 2(1,2,5,6) Must_Inr [of lbl src xa _ b y] by simp
  have d: "y \<le> skipSpace src y" by (rule skipSpace_mono)
  have e: "skipSpace src y < ya"
    using 2(7,8) parseNmtoken_Inr [of U lbl src "skipSpace src y" ba ya] by simp
  from c d e have f: "xa < ya" by linarith
  from a b f show ?case by simp
qed

declare parseEnum_loop.simps [simp del]

definition parseEnum :: "unicode \<Rightarrow> gostring \<Rightarrow> rune list \<Rightarrow> nat \<Rightarrow> AttType res" where
  "parseEnum U lbl src cur =
     andThen (Must lbl src cur (rn CHR ''('')) (\<lambda>_ c1.
     andThen (parseNmtoken U lbl src (skipSpace src c1)) (\<lambda>nm c2.
     andThen (parseEnum_loop U lbl src [nm] c2) (\<lambda>cases c3.
     (Inr (Enum cases), c3))))"

definition parseAttType :: "unicode \<Rightarrow> gostring \<Rightarrow> rune list \<Rightarrow> nat \<Rightarrow> AttType res" where
  "parseAttType U lbl src cur =
     (if Tests src cur (ToString AttTokenCDATA)
      then (Inr (TokenType AttTokenCDATA), StepN (length (ToString AttTokenCDATA)) cur)
      else if Tests src cur (ToString AttTokenID) \<or> Tests src cur (ToString AttTokenIDREF)
           \<or> Tests src cur (ToString AttTokenIDREFS) \<or> Tests src cur (ToString AttTokenENTITY)
           \<or> Tests src cur (ToString AttTokenENTITIES) \<or> Tests src cur (ToString AttTokenNMTOKEN)
           \<or> Tests src cur (ToString AttTokenNMTOKENS)
      then
        (let tok =
           (if Tests src cur (ToString AttTokenID) then
              (if Tests src cur (ToString AttTokenIDREF) then
                 (if Tests src cur (ToString AttTokenIDREFS) then AttTokenIDREFS
                  else AttTokenIDREF)
               else AttTokenID)
            else if Tests src cur (ToString AttTokenENTITY) then AttTokenENTITY
            else if Tests src cur (ToString AttTokenENTITIES) then AttTokenENTITIES
            else if Tests src cur (ToString AttTokenNMTOKEN) then
              (if Tests src cur (ToString AttTokenNMTOKENS) then AttTokenNMTOKENS
               else AttTokenNMTOKEN)
            else AttTokenUnset)
         in (Inr (TokenType tok), StepN (length (ToString tok)) cur))
      else if Tests src cur (runes ''NOTATION'') then parseNotationType U lbl src cur
      else if Test src cur (rn CHR ''('') then parseEnum U lbl src cur
      else error lbl cur (Message ''unknwon error''))"


section \<open>Progress of the operations that succeed\<close>

lemma andThen_InrE:
  assumes "andThen m f = (Inr y, c)"
  obtains x c1 where "m = (Inr x, c1)" and "f x c1 = (Inr y, c)"
  using assms by (auto simp: andThen_def split: prod.splits sum.splits)

lemma Tests_less: "Tests src cur s \<Longrightarrow> s \<noteq> [] \<Longrightarrow> cur < length src"
  by (cases s) (auto simp: Tests_def Let_def split: if_splits)

lemma Must_less: "Must lbl src cur r = (Inr x, c) \<Longrightarrow> cur < c"
  by (auto dest: Must_Inr)

lemma Musts_less: "Musts lbl src cur (y # ys) = (Inr x, c) \<Longrightarrow> cur < c"
  by (auto dest: Musts_Inr)

lemma skipSpace_nleD: "\<not> b \<le> skipSpace src a \<Longrightarrow> a < b"
  using skipSpace_mono [of a src] by linarith

lemmas Inr_simps = le_SucI less_Suc_eq_le Let_def Step_def StepN_def runes_def error_def

section \<open>External identifiers\<close>

text \<open>
  Modelled from the spec: the node types of the document type definition
  (\<^verbatim>\<open>ExternalID\<close>, \<^verbatim>\<open>DefaultDecl\<close>, \<^verbatim>\<open>AttDef\<close>, \<^verbatim>\<open>Attlist\<close>, \<^verbatim>\<open>Entity\<close>, \<^verbatim>\<open>Notation\<close>,
  \<^verbatim>\<open>Markup\<close>, \<^verbatim>\<open>DOCType\<close>, \<^verbatim>\<open>Prolog\<close>, \<^verbatim>\<open>XML\<close>) and their enumerations are declared
  outside \<^verbatim>\<open>parser.go\<close>. The fields are those that \<^verbatim>\<open>parser.go\<close> assigns, in the order
  of the data model of the specification. A \<^verbatim>\<open>nil\<close> pointer is \<open>None\<close>; a \<^verbatim>\<open>nil\<close> slice
  and an empty string are the empty list.
\<close>

datatype ExternalType = ExternalTypeSystem | ExternalTypePublic

datatype ExternalID = ExternalID ExternalType (Pubid: gostring) (System: gostring)

definition parseExternalID :: "gostring \<Rightarrow> rune list \<Rightarrow> nat \<Rightarrow> ExternalID res" where
  "parseExternalID lbl src cur =
     (case (if Tests src cur (runes ''SYSTEM'')
            then Some (ExternalTypeSystem, StepN (length ''SYSTEM'') cur)
            else if Tests src cur (runes ''PUBLIC'')
            then Some (ExternalTypePublic, StepN (length ''PUBLIC'') cur)
            else None) of
        None \<Rightarrow> error lbl cur (Message ''expected SYSTEM or PUBLIC'')
      | Some (ty, c1) \<Rightarrow>
          andThen (parseSpace lbl src c1) (\<lambda>_ c2.
          andThen
            (if ty = ExternalTypePublic then
               andThen (parsePubidLiteral lbl src c2) (\<lambda>pubid c3.
               andThen (parseSpace lbl src c3) (\<lambda>_ c4.
               (Inr pubid, c4)))
             else (Inr [], c2)) (\<lambda>pubid c5.
          andThen (parseSystemLiteral lbl src c5) (\<lambda>sys c6.
          (Inr (ExternalID ty pubid sys), c6)))))"

lemma parseExternalID_Inr: "parseExternalID lbl src cur = (Inr x, c) \<Longrightarrow> cur < c"
  by (auto simp: parseExternalID_def Inr_simps elim!: andThen_InrE split: if_splits
      dest!: parseSpace_Inr parsePubidLiteral_Inr parseSystemLiteral_Inr)

definition parseNData :: "unicode \<Rightarrow> gostring \<Rightarrow> rune list \<Rightarrow> nat \<Rightarrow> gostring res" where
  "parseNData U lbl src cur =
     andThen (parseSpace lbl src cur) (\<lambda>_ c1.
     andThen (Musts lbl src c1 (runes ''NDATA'')) (\<lambda>_ c2.
     andThen (parseSpace lbl src c2) (\<lambda>_ c3.
     parseName U lbl src c3)))"

lemma parseNData_Inr: "parseNData U lbl src cur = (Inr x, c) \<Longrightarrow> cur < c"
  by (auto simp: parseNData_def Inr_simps elim!: andThen_InrE
      dest!: parseSpace_Inr Musts_less parseName_Inr)

section \<open>Attribute-list declarations\<close>

datatype DefaultDeclType = DefaultDeclTypeRequired | DefaultDeclTypeImplied | DefaultDeclTypeFixed

text \<open>
  Modelled from the spec: the method \<^verbatim>\<open>ToString\<close> of \<^verbatim>\<open>DefaultDeclType\<close> is declared
  outside \<^verbatim>\<open>parser.go\<close>; the specification lists the keywords \<^verbatim>\<open>#REQUIRED\<close>,
  \<^verbatim>\<open>#IMPLIED\<close> and \<^verbatim>\<open>#FIXED\<close>.
\<close>

fun DefaultDeclType_ToString :: "DefaultDeclType \<Rightarrow> gostring" where
  "DefaultDeclType_ToString DefaultDeclTypeRequired = runes ''#REQUIRED''"
| "DefaultDeclType_ToString DefaultDeclTypeImplied = runes ''#IMPLIED''"
| "DefaultDeclType_ToString DefaultDeclTypeFixed = runes ''#FIXED''"

datatype DefaultDecl = DefaultDecl DefaultDeclType AttValue

datatype AttDef = AttDef gostring AttType DefaultDecl

datatype Attlist = Attlist gostring "AttDef list"

definition parseDefaultDecl :: "unicode \<Rightarrow> gostring \<Rightarrow> rune list \<Rightarrow> nat \<Rightarrow> DefaultDecl res" where
  "parseDefaultDecl U lbl src cur =
     (if Tests src cur (DefaultDeclType_ToString DefaultDeclTypeRequired) then
        (Inr (DefaultDecl DefaultDeclTypeRequired []),
         StepN (length (DefaultDeclType_ToString DefaultDeclTypeRequired)) cur)
      else if Tests src cur (DefaultDeclType_ToString DefaultDeclTypeImplied) then
        (Inr (DefaultDecl DefaultDeclTypeImplied []),
         StepN (length (DefaultDeclType_ToString DefaultDeclTypeImplied)) cur)
      else
        andThen
          (if Tests src cur (DefaultDeclType_ToString DefaultDeclTypeFixed) then
             parseSpace lbl src (StepN (length (DefaultDeclType_ToString DefaultDeclTypeFixed)) cur)
           else (Inr (), cur)) (\<lambda>_ c1.
        andThen (parseAttValue U lbl src c1) (\<lambda>v c2.
        (Inr (DefaultDecl DefaultDeclTypeFixed v), c2))))"

definition parseAttDef :: "unicode \<Rightarrow> gostring \<Rightarrow> rune list \<Rightarrow> nat \<Rightarrow> AttDef res" where
  "parseAttDef U lbl src cur =
     andThen (parseSpace lbl src cur) (\<lambda>_ c1.
     andThen (parseName U lbl src c1) (\<lambda>n c2.
     andThen (parseSpace lbl src c2) (\<lambda>_ c3.
     andThen (parseAttType U lbl src c3) (\<lambda>ty c4.
     andThen (parseSpace lbl src c4) (\<lambda>_ c5.
     andThen (parseDefaultDecl U lbl src c5) (\<lambda>decl c6.
     (Inr (AttDef n ty decl), c6)))))))"

lemma parseNotationType_loop_Inr:
  "parseNotationType_loop U lbl src names cur = (Inr x, c) \<Longrightarrow> cur \<le> c"
proof (induction "length src - cur" arbitrary: cur names rule: less_induct)
  case less
  from less.prems show ?case
    by (subst (asm) parseNotationType_loop.simps)
      (auto simp: cursor_simps isEnd_def split: cursor_splits
        dest!: Must_less parseName_Inr less.hyps [rotated] skipSpace_ltD skipSpace_leD
          skipSpace_nleD)
qed

lemma parseEnum_loop_Inr:
  "parseEnum_loop U lbl src cases cur = (Inr x, c) \<Longrightarrow> cur \<le> c"
proof (induction "length src - cur" arbitrary: cur cases rule: less_induct)
  case less
  from less.prems show ?case
    by (subst (asm) parseEnum_loop.simps)
      (auto simp: cursor_simps isEnd_def split: cursor_splits
        dest!: Must_less parseNmtoken_Inr less.hyps [rotated] skipSpace_ltD skipSpace_leD
          skipSpace_nleD)
qed

lemma parseNotationType_Inr: "parseNotationType U lbl src cur = (Inr x, c) \<Longrightarrow> cur < c"
  by (auto simp: parseNotationType_def Inr_simps elim!: andThen_InrE
      dest!: Musts_less Must_less parseSpace_Inr parseName_Inr parseNotationType_loop_Inr
        skipSpace_ltD)

lemma parseEnum_Inr: "parseEnum U lbl src cur = (Inr x, c) \<Longrightarrow> cur < c"
  by (auto simp: parseEnum_def Inr_simps elim!: andThen_InrE
      dest!: Must_less parseNmtoken_Inr parseEnum_loop_Inr skipSpace_ltD)

lemma parseAttType_Inr: "parseAttType U lbl src cur = (Inr x, c) \<Longrightarrow> cur \<le> c"
  by (auto simp: parseAttType_def Inr_simps split: if_splits
      dest!: parseNotationType_Inr parseEnum_Inr)

lemma parseDefaultDecl_Inr: "parseDefaultDecl U lbl src cur = (Inr x, c) \<Longrightarrow> cur \<le> c"
  by (auto simp: parseDefaultDecl_def Inr_simps elim!: andThen_InrE split: if_splits
      dest!: parseSpace_Inr parseAttValue_Inr)

lemma parseAttDef_Inr: "parseAttDef U lbl src cur = (Inr x, c) \<Longrightarrow> cur < c"
  by (auto simp: parseAttDef_def elim!: andThen_InrE
      dest!: parseSpace_Inr parseName_Inr parseAttType_Inr parseDefaultDecl_Inr)

function parseAttlist_loop ::
  "unicode \<Rightarrow> gostring \<Rightarrow> rune list \<Rightarrow> AttDef list \<Rightarrow> nat \<Rightarrow> AttDef list res"
where
  "parseAttlist_loop U lbl src defs cur0 =
     (let cur = cur0; c1 = skipSpace src cur0
      in if Test src c1 (rn CHR ''>'') then (Inr defs, Step c1)
         else if isEnd src c1 then error lbl c1 (Message ''reached EOF'')
         else (case parseAttDef U lbl src cur of
                 (Inl err, c2) \<Rightarrow> (Inl err, c2)
               | (Inr def, c2) \<Rightarrow> parseAttlist_loop U lbl src (defs @ [def]) c2))"
  by pat_completeness auto
termination
proof (relation "measure (\<lambda>(U, lbl, src, defs, cur). length src - cur)", goal_cases)
  case 1
  show ?case by simp
next
  case (2 U lbl src defs cur0 cur c1 r c2 def)
  have a: "cur0 \<le> c1" using 2(1,2) by (simp add: skipSpace_mono)
  have b: "c1 < length src" using 2(4) by (simp add: isEnd_def)
  have c: "cur0 < c2" using 2(1,5,6) parseAttDef_Inr [of U lbl src cur0 def c2] by simp
  from a b c show ?case by simp
qed

declare parseAttlist_loop.simps [simp del]

lemma parseAttlist_loop_Inr:
  "parseAttlist_loop U lbl src defs cur = (Inr x, c) \<Longrightarrow> cur \<le> c"
proof (induction "length src - cur" arbitrary: cur defs rule: less_induct)
  case less
  from less.prems show ?case
    by (subst (asm) parseAttlist_loop.simps)
      (auto simp: cursor_simps isEnd_def split: cursor_splits
        dest!: parseAttDef_Inr less.hyps [rotated] skipSpace_nleD)
qed

definition parseAttlist :: "unicode \<Rightarrow> rune list \<Rightarrow> nat \<Rightarrow> Attlist res" where
  "parseAttlist U src cur =
     (let lbl = runes ''ATTLIST''
      in andThen (Musts lbl src cur (runes ''<!ATTLIST'')) (\<lambda>_ c1.
         andThen (parseSpace lbl src c1) (\<lambda>_ c2.
         andThen (parseName U lbl src c2) (\<lambda>n c3.
         andThen (parseAttlist_loop U lbl src [] c3) (\<lambda>defs c4.
         (Inr (Attlist n defs), c4))))))"

lemma parseAttlist_Inr: "parseAttlist U src cur = (Inr x, c) \<Longrightarrow> cur < c"
  by (auto simp: parseAttlist_def Inr_simps elim!: andThen_InrE
      dest!: Musts_less parseSpace_Inr parseName_Inr parseAttlist_loop_Inr)

section \<open>Entity declarations\<close>

datatype EntityType = EntityTypeGE | EntityTypePE

datatype Entity =
  Entity EntityType gostring (Value: EntityValue) (ExtID: "ExternalID option") (NData: gostring)

definition parseEntityDef ::
  "unicode \<Rightarrow> gostring \<Rightarrow> rune list \<Rightarrow> nat \<Rightarrow> (EntityValue \<times> ExternalID option \<times> gostring) res"
where
  "parseEntityDef U lbl src cur0 =
     (if Test src cur0 (rn CHR 0x27) \<or> Test src cur0 (rn CHR 0x22) then
        andThen (parseEntityValue U lbl src cur0) (\<lambda>v c1. (Inr (v, None, []), c1))
      else if Tests src cur0 (runes ''SYSTEM'') \<or> Tests src cur0 (runes ''PUBLIC'') then
        andThen (parseExternalID lbl src cur0) (\<lambda>ext c1.
        (let cur = c1
         in case parseNData U lbl src c1 of
              (Inl err, c2) \<Rightarrow> (Inr ([], Some ext, []), cur)
            | (Inr ndata, c2) \<Rightarrow> (Inr ([], Some ext, ndata), c2)))
      else error lbl cur0 (Message ''unexpected char''))"

definition parsePEDef ::
  "unicode \<Rightarrow> gostring \<Rightarrow> rune list \<Rightarrow> nat \<Rightarrow> (EntityValue \<times> ExternalID option) res"
where
  "parsePEDef U lbl src cur =
     (if Test src cur (rn CHR 0x27) \<or> Test src cur (rn CHR 0x22) then
        andThen (parseEntityValue U lbl src cur) (\<lambda>v c1. (Inr (v, None), c1))
      else if Tests src cur (runes ''SYSTEM'') \<or> Tests src cur (runes ''PUBLIC'') then
        andThen (parseExternalID lbl src cur) (\<lambda>ext c1. (Inr ([], Some ext), c1))
      else error lbl cur (Message ''unexpected char''))"

definition parseEntity :: "unicode \<Rightarrow> rune list \<Rightarrow> nat \<Rightarrow> Entity res" where
  "parseEntity U src cur =
     (let lbl = runes ''Entity Declaration''
      in andThen (Musts lbl src cur (runes ''<!ENTITY'')) (\<lambda>_ c1.
         andThen (parseSpace lbl src c1) (\<lambda>_ c2.
         andThen
           (if Test src c2 (rn CHR ''%'') then
              andThen (parseSpace lbl src (Step c2)) (\<lambda>_ c3. (Inr EntityTypePE, c3))
            else (Inr EntityTypeGE, c2)) (\<lambda>ty c4.
         andThen (parseName U lbl src c4) (\<lambda>n c5.
         andThen (parseSpace lbl src c5) (\<lambda>_ c6.
         andThen
           (if ty = EntityTypePE then
              andThen (parsePEDef U lbl src c6) (\<lambda>(v, ext) c7. (Inr (v, ext, []), c7))
            else parseEntityDef U lbl src c6) (\<lambda>(v, ext, ndata) c8.
         andThen (Must lbl src (skipSpace src c8) (rn CHR ''>'')) (\<lambda>_ c9.
         (Inr (Entity ty n v ext ndata), c9)))))))))"

lemma parseEntityDef_Inr: "parseEntityDef U lbl src cur = (Inr x, c) \<Longrightarrow> cur \<le> c"
  by (auto simp: parseEntityDef_def Inr_simps elim!: andThen_InrE
      split: if_splits prod.splits sum.splits
      dest!: parseEntityValue_Inr parseExternalID_Inr parseNData_Inr)

lemma parsePEDef_Inr: "parsePEDef U lbl src cur = (Inr x, c) \<Longrightarrow> cur \<le> c"
  by (auto simp: parsePEDef_def Inr_simps elim!: andThen_InrE split: if_splits
      dest!: parseEntityValue_Inr parseExternalID_Inr)

lemma parseEntity_Inr: "parseEntity U src cur = (Inr x, c) \<Longrightarrow> cur < c"
  by (auto simp: parseEntity_def Inr_simps elim!: andThen_InrE split: if_splits
      dest!: Musts_less Must_less parseSpace_Inr parseName_Inr parsePEDef_Inr parseEntityDef_Inr
        skipSpace_leD skipSpace_ltD)

section \<open>Notation declarations\<close>

datatype Notation = Notation gostring ExternalID

definition parseNotation :: "unicode \<Rightarrow> rune list \<Rightarrow> nat \<Rightarrow> Notation res" where
  "parseNotation U src cur0 =
     (let lbl = runes ''NOTATION''
      in andThen (Musts lbl src cur0 (runes ''<!NOTATION'')) (\<lambda>_ c1.
         andThen (parseSpace lbl src c1) (\<lambda>_ c2.
         andThen (parseName U lbl src c2) (\<lambda>n c3.
         andThen (parseSpace lbl src c3) (\<lambda>_ c4.
         (case (if Tests src c4 (runes ''SYSTEM'')
                then Some (ExternalTypeSystem, StepN (length ''SYSTEM'') c4)
                else if Tests src c4 (runes ''PUBLIC'')
                then Some (ExternalTypePublic, StepN (length ''PUBLIC'') c4)
                else None) of
            None \<Rightarrow> error lbl c4 (Message ''expected SYSTEM or PUBLIC'')
          | Some (ty, c5) \<Rightarrow>
              andThen (parseSpace lbl src c5) (\<lambda>_ c6.
              andThen
                (if ty = ExternalTypePublic then
                   andThen (parsePubidLiteral lbl src c6) (\<lambda>pubid c7.
                   (let cur = c7
                    in case parseSpace lbl src c7 of
                         (Inr _, c8) \<Rightarrow>
                           (case parseSystemLiteral lbl src c8 of
                              (Inr sys, c9) \<Rightarrow> (Inr (ExternalID ty pubid sys), c9)
                            | (Inl err, c9) \<Rightarrow> (Inr (ExternalID ty pubid []), cur))
                       | (Inl err, c8) \<Rightarrow> (Inr (ExternalID ty pubid []), cur)))
                 else
                   andThen (parseSystemLiteral lbl src c6) (\<lambda>sys c7.
                   (Inr (ExternalID ty [] sys), c7))) (\<lambda>ext c10.
              andThen (Must lbl src (skipSpace src c10) (rn CHR ''>'')) (\<lambda>_ c11.
              (Inr (Notation n ext), c11))))))))))"

lemma parseNotation_Inr: "parseNotation U src cur = (Inr x, c) \<Longrightarrow> cur < c"
  by (auto simp: parseNotation_def Inr_simps elim!: andThen_InrE
      split: if_splits prod.splits sum.splits
      dest!: Musts_less Must_less parseSpace_Inr parseName_Inr parsePubidLiteral_Inr
        parseSystemLiteral_Inr skipSpace_leD skipSpace_ltD)

section \<open>Document type declaration\<close>

lemma parseMixed_loop_Inr:
  "parseMixed_loop U lbl src names cur = (Inr x, c) \<Longrightarrow> cur \<le> c"
proof (induction "length src - cur" arbitrary: cur names rule: less_induct)
  case less
  from less.prems show ?case
    by (subst (asm) parseMixed_loop.simps)
      (auto simp: cursor_simps isEnd_def split: cursor_splits
        dest!: Must_less parseName_Inr less.hyps [rotated] skipSpace_ltD skipSpace_leD
          skipSpace_nleD)
qed

lemma parseMixed_Inr: "parseMixed U lbl src cur = (Inr x, c) \<Longrightarrow> cur \<le> c"
  by (auto simp: parseMixed_def Inr_simps elim!: andThen_InrE split: if_splits
      dest!: Musts_less Must_less parseMixed_loop_Inr skipSpace_leD skipSpace_ltD)

lemma parseChildren_Inr: "parseChildren U lbl src cur = (Inr x, c) \<Longrightarrow> cur \<le> c"
  by (auto simp: parseChildren_def Inr_simps split: prod.splits sum.splits
      dest!: parseChoice_mono parseSeq_mono parseSuffix_mono)

lemma parseContentSpec_Inr: "parseContentSpec U lbl src cur = (Inr x, c) \<Longrightarrow> cur \<le> c"
  by (auto simp: parseContentSpec_def Inr_simps split: if_splits prod.splits sum.splits
      dest!: parseMixed_Inr parseChildren_Inr)

lemma parseElementDecl_Inr: "parseElementDecl U src cur = (Inr x, c) \<Longrightarrow> cur < c"
  by (auto simp: parseElementDecl_def Inr_simps elim!: andThen_InrE
      dest!: Musts_less Must_less parseSpace_Inr parseName_Inr parseContentSpec_Inr skipSpace_leD skipSpace_ltD)


datatype Markup =
    MarkupElementDecl ElementDecl
  | MarkupAttlist Attlist
  | MarkupEntity Entity
  | MarkupNotation Notation
  | MarkupPI PI
  | MarkupComment gostring

definition parseMarkup :: "unicode \<Rightarrow> rune list \<Rightarrow> nat \<Rightarrow> Markup res" where
  "parseMarkup U src cur =
     (let lbl = runes ''markup''
      in if Tests src cur (runes ''<!ELEMENT'') then
           andThen (parseElementDecl U src cur) (\<lambda>m c. (Inr (MarkupElementDecl m), c))
         else if Tests src cur (runes ''<!ATTLIST'') then
           andThen (parseAttlist U src cur) (\<lambda>m c. (Inr (MarkupAttlist m), c))
         else if Tests src cur (runes ''<!ENTITY'') then
           andThen (parseEntity U src cur) (\<lambda>m c. (Inr (MarkupEntity m), c))
         else if Tests src cur (runes ''<!NOTATION'') then
           andThen (parseNotation U src cur) (\<lambda>m c. (Inr (MarkupNotation m), c))
         else if Tests src cur (runes ''<?'') then
           andThen (parsePI U src cur) (\<lambda>m c. (Inr (MarkupPI m), c))
         else if Tests src cur (runes ''<!--'') then
           andThen (parseComment U src cur) (\<lambda>m c. (Inr (MarkupComment m), c))
         else error lbl cur (Message ''unknown markup''))"

lemma parseMarkup_Inr: "parseMarkup U src cur = (Inr x, c) \<Longrightarrow> cur < c"
  by (auto simp: parseMarkup_def Inr_simps elim!: andThen_InrE split: if_splits
      dest!: parseElementDecl_Inr parseAttlist_Inr parseEntity_Inr parseNotation_Inr
        parsePI_Inr parseComment_Inr)

datatype DOCType =
  DOCType gostring (DocExtID: "ExternalID option") (Markups: "Markup list") (DocPERef: "PERef option")

function parseDoctype_loop ::
  "unicode \<Rightarrow> gostring \<Rightarrow> rune list \<Rightarrow> Markup list \<Rightarrow> PERef option \<Rightarrow> nat
    \<Rightarrow> (Markup list \<times> PERef option) res"
where
  "parseDoctype_loop U lbl src markups peref cur =
     (if Tests src cur (runes ''<!ELEMENT'') \<or> Tests src cur (runes ''<!ATTLIST'')
         \<or> Tests src cur (runes ''<!ENTITY'') \<or> Tests src cur (runes ''<!NOTATION'')
         \<or> Tests src cur (runes ''<?'') \<or> Tests src cur (runes ''<!--'') then
        (case parseMarkup U src cur of
           (Inl err, c1) \<Rightarrow> (Inl err, c1)
         | (Inr m, c1) \<Rightarrow> parseDoctype_loop U lbl src (markups @ [m]) peref c1)
      else if Test src cur (rn CHR ''%'') then
        (case parsePERef U lbl src cur of
           (Inl err, c1) \<Rightarrow> (Inl err, c1)
         | (Inr ref, c1) \<Rightarrow> parseDoctype_loop U lbl src markups (Some ref) c1)
      else if isSpace (Get src cur) then
        parseDoctype_loop U lbl src markups peref (skipSpace src cur)
      else (Inr (markups, peref), cur))"
  by pat_completeness auto
termination
proof (relation "measure (\<lambda>(U, lbl, src, markups, peref, cur). length src - cur)", goal_cases)
  case 1
  show ?case by simp
next
  case (2 U lbl src markups peref cur r c1 m)
  have a: "cur < length src" using 2(1) by (auto simp: runes_def dest: Tests_less)
  have b: "cur < c1" using 2(2,3) parseMarkup_Inr [of U src cur m c1] by simp
  from a b show ?case by simp
next
  case (3 U lbl src markups peref cur r c1 ref)
  have a: "cur < length src" using 3(2) by (auto dest: Test_less)
  have b: "cur < c1" using 3(3,4) parsePERef_Inr [of U lbl src cur ref c1] by simp
  from a b show ?case by simp
next
  case (4 U lbl src markups peref cur)
  have a: "cur < length src" using 4(3) by (rule isSpace_Get_less)
  have b: "cur < skipSpace src cur" using 4(3) by (rule skipSpace_less)
  from a b show ?case by simp
qed

declare parseDoctype_loop.simps [simp del]

definition parseDoctype :: "unicode \<Rightarrow> rune list \<Rightarrow> nat \<Rightarrow> DOCType res" where
  "parseDoctype U src cur =
     (let lbl = runes ''DOCTYPE''
      in andThen (Musts lbl src cur (runes ''<!DOCTYPE'')) (\<lambda>_ c1.
         andThen (parseSpace lbl src c1) (\<lambda>_ c2.
         andThen (parseName U lbl src c2) (\<lambda>n c3.
         andThen
           (let c4 = skipSpace src c3
            in if Tests src c4 (runes ''SYSTEM'') \<or> Tests src c4 (runes ''PUBLIC'') then
                 andThen (parseExternalID lbl src c4) (\<lambda>ext c5.
                 (Inr (Some ext), skipSpace src c5))
               else (Inr None, c4)) (\<lambda>ext c6.
         andThen
           (if Test src c6 (rn CHR ''['') then
              andThen (parseDoctype_loop U lbl src [] None (Step c6)) (\<lambda>(markups, peref) c7.
              andThen (Must lbl src c7 (rn CHR '']'')) (\<lambda>_ c8.
              (Inr (markups, peref), c8)))
            else (Inr ([], None), c6)) (\<lambda>(markups, peref) c9.
         andThen (Must lbl src (skipSpace src c9) (rn CHR ''>'')) (\<lambda>_ c10.
         (Inr (DOCType n ext markups peref), c10))))))))"

section \<open>Prolog and document\<close>

text \<open>
  The loop over \<^verbatim>\<open>Misc\<close> is written three times in the source, twice in
  \<^verbatim>\<open>parseProlog\<close> and once in \<^verbatim>\<open>parse\<close>, with the same body: save the cursor, call
  \<^verbatim>\<open>parseMisc\<close>, on failure restore the cursor and leave the loop, otherwise append
  the value unless it is \<^verbatim>\<open>nil\<close>.
\<close>

lemma parseMisc_Inr_length: "parseMisc U lbl src cur = (Inr x, c) \<Longrightarrow> cur < length src"
  by (auto simp: parseMisc_def error_def runes_def split: if_splits
      dest: Tests_less isSpace_Get_less)

function parseMisc_loop ::
  "unicode \<Rightarrow> gostring \<Rightarrow> rune list \<Rightarrow> Misc list \<Rightarrow> nat \<Rightarrow> Misc list \<times> nat"
where
  "parseMisc_loop U lbl src miscs cur0 =
     (let cur = cur0
      in case parseMisc U lbl src cur0 of
           (Inl err, c1) \<Rightarrow> (miscs, cur)
         | (Inr misc, c1) \<Rightarrow>
             parseMisc_loop U lbl src
               (case misc of None \<Rightarrow> miscs | Some m \<Rightarrow> miscs @ [m]) c1)"
  by pat_completeness auto
termination
proof (relation "measure (\<lambda>(U, lbl, src, miscs, cur). length src - cur)", goal_cases)
  case 1
  show ?case by simp
next
  case (2 U lbl src miscs cur0 cur r c1 misc)
  have a: "cur0 < length src"
    using 2(2,3) parseMisc_Inr_length [of U lbl src cur0 misc c1] by simp
  have b: "cur0 < c1" using 2(2,3) parseMisc_Inr [of U lbl src cur0 misc c1] by simp
  from a b show ?case by simp
qed

declare parseMisc_loop.simps [simp del]

lemma parseMisc_loop_stops:
  "parseMisc_loop U lbl src ms cur = (ms', c) \<Longrightarrow> cur \<le> c \<and> failed (parseMisc U lbl src c)"
proof (induction U lbl src ms cur rule: parseMisc_loop.induct)
  case (1 U lbl src miscs cur0)
  obtain r c1 where m: "parseMisc U lbl src cur0 = (r, c1)" by force
  show ?case
  proof (cases r)
    case (Inl err)
    with m "1.prems" have "c = cur0"
      by (simp add: parseMisc_loop.simps [of U lbl src miscs cur0])
    with m Inl show ?thesis by (simp add: failed_def)
  next
    case (Inr misc)
    with m "1.prems"
    have l: "parseMisc_loop U lbl src (case misc of None \<Rightarrow> miscs | Some m \<Rightarrow> miscs @ [m]) c1
        = (ms', c)"
      by (simp add: parseMisc_loop.simps [of U lbl src miscs cur0])
    from m Inr have "cur0 < c1" by (auto dest: parseMisc_Inr)
    moreover from "1.IH" [OF refl m [symmetric] Inr l]
    have "c1 \<le> c \<and> failed (parseMisc U lbl src c)" .
    ultimately show ?thesis by simp
  qed
qed

lemma parseMisc_loop_stops_at_once:
  "failed (parseMisc U lbl src cur) \<Longrightarrow> parseMisc_loop U lbl src ms cur = (ms, cur)"
  by (cases "parseMisc U lbl src cur")
    (auto simp: parseMisc_loop.simps [of U lbl src ms cur] failed_def split: sum.splits)

datatype Prolog =
  Prolog (ProXMLDecl: "XMLDecl option") (Misc1: "Misc list") (ProDOCType: "DOCType option")
    (Misc2: "Misc list")

definition parseProlog :: "unicode \<Rightarrow> gostring \<Rightarrow> rune list \<Rightarrow> nat \<Rightarrow> Prolog res" where
  "parseProlog U lbl src cur =
     (let c0 = skipSpace src cur
      in andThen
           (if Tests src c0 (runes ''<?xml'') then
              andThen (parseXmlDecl src c0) (\<lambda>xmlDecl c. (Inr (Some xmlDecl), c))
            else (Inr None, c0)) (\<lambda>xmlDecl c1.
         (case parseMisc_loop U lbl src [] c1 of
            (misc1, c2) \<Rightarrow>
              if Tests src c2 (runes ''<!DOCTYPE'') then
                andThen (parseDoctype U src c2) (\<lambda>doc c3.
                (case parseMisc_loop U lbl src [] c3 of
                   (misc2, c4) \<Rightarrow> (Inr (Prolog xmlDecl misc1 (Some doc) misc2), c4)))
              else (Inr (Prolog xmlDecl misc1 None []), c2))))"

datatype XML = XML Prolog Element (TrailingMisc: "Misc list")

definition parse :: "unicode \<Rightarrow> gostring \<Rightarrow> rune list \<Rightarrow> nat \<Rightarrow> XML res" where
  "parse U lbl src cur =
     andThen (parseProlog U lbl src cur) (\<lambda>pro c1.
     andThen (parseElement U src c1) (\<lambda>e c2.
     (case parseMisc_loop U lbl src [] c2 of
        (miscs, c3) \<Rightarrow> (Inr (XML pro e miscs), c3))))"

section \<open>Properties\<close>

text \<open>
  Closed examples need a concrete classifier: \<open>asciiOnly\<close> knows no letter, digit,
  combining character, extender or character beyond ASCII.
\<close>

definition asciiOnly :: unicode where
  "asciiOnly = \<lparr>uLetter = (\<lambda>_. False), uDigit = (\<lambda>_. False), uCombining = (\<lambda>_. False),
     uExtender = (\<lambda>_. False), uChar = (\<lambda>_. False)\<rparr>"

subsection \<open>The XML declaration\<close>

lemma xmldecl_full:
  "fst (parseXmlDecl (runes ''<?xml version=\"1.0\" encoding=\"UTF-8\" standalone=\"yes\"?>'') 0)
     = Inr (XMLDecl (runes ''1.0'') (runes ''UTF-8'') True)"
  by code_simp

lemma xmldecl_no_encoding:
  "fst (parseXmlDecl (runes ''<?xml version=\"1.0\" standalone=\"yes\"?>'') 0)
     = Inr (XMLDecl (runes ''1.0'') [] True)"
  by code_simp

lemma xmldecl_no_standalone:
  "fst (parseXmlDecl (runes ''<?xml version=\"1.0\" encoding=\"UTF-8\"?>'') 0)
     = Inr (XMLDecl (runes ''1.0'') (runes ''UTF-8'') False)"
  by code_simp

lemma xmldecl_neither:
  "fst (parseXmlDecl (runes ''<?xml version=\"1.0\"?>'') 0)
     = Inr (XMLDecl (runes ''1.0'') [] False)"
  by code_simp

lemma xmldecl_iff:
  "parseXmlDecl src cur = (Inr x, c) \<longleftrightarrow>
     (\<exists>c1 c2 c3 c4.
        Musts (runes ''XML Declaration'') src cur (runes ''<?xml'') = (Inr (), c1)
      \<and> parseVersion (runes ''XML Declaration'') src c1 = (Inr (Version x), c2)
      \<and> (if Tests src (skipSpace src c2) (runes ''encoding'')
          then parseEncoding (runes ''XML Declaration'') src c2 = (Inr (Encoding x), c3)
          else Encoding x = [] \<and> c3 = c2)
      \<and> (if Tests src (skipSpace src c3) (runes ''standalone'')
          then parseStandalone (runes ''XML Declaration'') src c3 = (Inr (Standalone x), c4)
          else Standalone x = False \<and> c4 = c3)
      \<and> Musts (runes ''XML Declaration'') src (skipSpace src c4) (runes ''?>'') = (Inr (), c))"
  by (cases x)
    (auto simp: parseXmlDecl_def andThen_def Let_def split: prod.splits sum.splits if_splits)

lemma xmldecl_encoding_omitted:
  "parseXmlDecl src cur = (Inr x, c) \<longrightarrow>
   Musts (runes ''XML Declaration'') src cur (runes ''<?xml'') = (Inr (), c1) \<longrightarrow>
   parseVersion (runes ''XML Declaration'') src c1 = (Inr v, c2) \<longrightarrow>
   \<not> Tests src (skipSpace src c2) (runes ''encoding'') \<longrightarrow> Encoding x = []"
  by (cases x)
    (auto simp: parseXmlDecl_def andThen_def Let_def split: prod.splits sum.splits if_splits)

lemma xmldecl_standalone_omitted:
  "parseXmlDecl src cur = (Inr x, c) \<longrightarrow>
   Musts (runes ''XML Declaration'') src cur (runes ''<?xml'') = (Inr (), c1) \<longrightarrow>
   parseVersion (runes ''XML Declaration'') src c1 = (Inr v, c2) \<longrightarrow>
   (if Tests src (skipSpace src c2) (runes ''encoding'')
    then parseEncoding (runes ''XML Declaration'') src c2 = (Inr e, c3) else c3 = c2) \<longrightarrow>
   \<not> Tests src (skipSpace src c3) (runes ''standalone'') \<longrightarrow> Standalone x = False"
  by (cases x)
    (auto simp: parseXmlDecl_def andThen_def Let_def split: prod.splits sum.splits if_splits)

lemma xmldecl_spaces:
  "parseXmlDecl (runes ''<?xml version=\"1.1\"  standalone=\"no\"    ?>'') 0
     = (Inr (XMLDecl (runes ''1.1'') [] False), 42)"
  by code_simp

lemma xmldecl_spaces_steps:
  "Musts (runes ''XML Declaration'') (runes ''<?xml version=\"1.1\"  standalone=\"no\"    ?>'') 0
     (runes ''<?xml'') = (Inr (), 5)"
  "parseVersion (runes ''XML Declaration'') (runes ''<?xml version=\"1.1\"  standalone=\"no\"    ?>'') 5
     = (Inr (runes ''1.1''), 19)"
  "\<not> Tests (runes ''<?xml version=\"1.1\"  standalone=\"no\"    ?>'')
     (skipSpace (runes ''<?xml version=\"1.1\"  standalone=\"no\"    ?>'') 19) (runes ''encoding'')"
  by code_simp+

text \<open>
  Claim C7. \<^verbatim>\<open>parseXmlDecl\<close> on the declaration with version 1.0, encoding UTF-8 and
  standalone yes returns these three values. In general it succeeds exactly when
  \<^verbatim>\<open><?xml\<close> and the version information parse, each of the encoding and the
  standalone declaration either is announced by its keyword after optional white
  space and parses, or is left out, and \<^verbatim>\<open>?>\<close> follows after optional white space.
  A declaration that is left out leaves its field at the zero value (the empty string,
  false); whether the one is present does not depend on the other.
\<close>

theorem C7_parseXmlDecl:
  "(parseXmlDecl src cur = (Inr x, c) \<longleftrightarrow>
     (\<exists>c1 c2 c3 c4.
        Musts (runes ''XML Declaration'') src cur (runes ''<?xml'') = (Inr (), c1)
      \<and> parseVersion (runes ''XML Declaration'') src c1 = (Inr (Version x), c2)
      \<and> (if Tests src (skipSpace src c2) (runes ''encoding'')
          then parseEncoding (runes ''XML Declaration'') src c2 = (Inr (Encoding x), c3)
          else Encoding x = [] \<and> c3 = c2)
      \<and> (if Tests src (skipSpace src c3) (runes ''standalone'')
          then parseStandalone (runes ''XML Declaration'') src c3 = (Inr (Standalone x), c4)
          else Standalone x = False \<and> c4 = c3)
      \<and> Musts (runes ''XML Declaration'') src (skipSpace src c4) (runes ''?>'') = (Inr (), c)))
   \<and> (parseXmlDecl src cur = (Inr x, c) \<longrightarrow>
      Musts (runes ''XML Declaration'') src cur (runes ''<?xml'') = (Inr (), d1) \<longrightarrow>
      parseVersion (runes ''XML Declaration'') src d1 = (Inr v, d2) \<longrightarrow>
      \<not> Tests src (skipSpace src d2) (runes ''encoding'') \<longrightarrow> Encoding x = [])
   \<and> (parseXmlDecl src cur = (Inr x, c) \<longrightarrow>
      Musts (runes ''XML Declaration'') src cur (runes ''<?xml'') = (Inr (), d1) \<longrightarrow>
      parseVersion (runes ''XML Declaration'') src d1 = (Inr v, d2) \<longrightarrow>
      (if Tests src (skipSpace src d2) (runes ''encoding'')
       then parseEncoding (runes ''XML Declaration'') src d2 = (Inr e, d3) else d3 = d2) \<longrightarrow>
      \<not> Tests src (skipSpace src d3) (runes ''standalone'') \<longrightarrow> Standalone x = False)
   \<and> fst (parseXmlDecl (runes ''<?xml version=\"1.0\" encoding=\"UTF-8\" standalone=\"yes\"?>'') 0)
     = Inr (XMLDecl (runes ''1.0'') (runes ''UTF-8'') True)
   \<and> fst (parseXmlDecl (runes ''<?xml version=\"1.0\" standalone=\"yes\"?>'') 0)
     = Inr (XMLDecl (runes ''1.0'') [] True)
   \<and> fst (parseXmlDecl (runes ''<?xml version=\"1.0\" encoding=\"UTF-8\"?>'') 0)
     = Inr (XMLDecl (runes ''1.0'') (runes ''UTF-8'') False)
   \<and> fst (parseXmlDecl (runes ''<?xml version=\"1.0\"?>'') 0)
     = Inr (XMLDecl (runes ''1.0'') [] False)
   \<and> parseXmlDecl (runes ''<?xml version=\"1.1\"  standalone=\"no\"    ?>'') 0
     = (Inr (XMLDecl (runes ''1.1'') [] False), 42)"
  by (intro conjI xmldecl_iff xmldecl_encoding_omitted xmldecl_standalone_omitted
      xmldecl_full xmldecl_no_encoding xmldecl_no_standalone xmldecl_neither xmldecl_spaces)

theorem C7_witness:
  "parseXmlDecl (runes ''<?xml version=\"1.1\"  standalone=\"no\"    ?>'') 0
     = (Inr (XMLDecl (runes ''1.1'') [] False), 42)
   \<and> Musts (runes ''XML Declaration'') (runes ''<?xml version=\"1.1\"  standalone=\"no\"    ?>'') 0
     (runes ''<?xml'') = (Inr (), 5)
   \<and> parseVersion (runes ''XML Declaration'') (runes ''<?xml version=\"1.1\"  standalone=\"no\"    ?>'') 5
     = (Inr (runes ''1.1''), 19)
   \<and> \<not> Tests (runes ''<?xml version=\"1.1\"  standalone=\"no\"    ?>'')
     (skipSpace (runes ''<?xml version=\"1.1\"  standalone=\"no\"    ?>'') 19) (runes ''encoding'')
   \<and> Encoding (XMLDecl (runes ''1.1'') [] False) = []"
proof -
  let ?S = "runes ''<?xml version=\"1.1\"  standalone=\"no\"    ?>''"
  have z: "parseXmlDecl ?S 0 = (Inr (XMLDecl (runes ''1.1'') [] False), 42) \<longrightarrow>
      Musts (runes ''XML Declaration'') ?S 0 (runes ''<?xml'') = (Inr (), 5) \<longrightarrow>
      parseVersion (runes ''XML Declaration'') ?S 5 = (Inr (runes ''1.1''), 19) \<longrightarrow>
      \<not> Tests ?S (skipSpace ?S 19) (runes ''encoding'') \<longrightarrow>
      Encoding (XMLDecl (runes ''1.1'') [] False) = []"
    by (rule C7_parseXmlDecl [where src = ?S and cur = 0 and x = "XMLDecl (runes ''1.1'') [] False"
        and c = 42 and ?d1.0 = 5 and v = "runes ''1.1''" and ?d2.0 = 19,
        THEN conjunct2, THEN conjunct1])
  from z xmldecl_spaces xmldecl_spaces_steps
  have "Encoding (XMLDecl (runes ''1.1'') [] False) = []" by blast
  with xmldecl_spaces xmldecl_spaces_steps show ?thesis by blast
qed

subsection \<open>Start and end tags\<close>

lemma element_mismatch:
  "parseElement U (runes ''<a></b>'') 0
     = (Inl (XMLError (runes ''a tag'') (EndTagMismatch (runes ''b'') (runes ''a'')) 7), 7)"
  by code_simp

lemma element_mismatch_case:
  "parseElement U (runes ''<a></A>'') 0
     = (Inl (XMLError (runes ''a tag'') (EndTagMismatch (runes ''A'') (runes ''a'')) 7), 7)"
  by code_simp

lemma element_pair: "parseElement U (runes ''<a></a>'') 0 = (Inr (Element (runes ''a'') [] [] False), 7)"
  by code_simp

lemma element_empty: "parseElement U (runes ''<a/>'') 0 = (Inr (Element (runes ''a'') [] [] True), 4)"
  by code_simp

lemma parseElement_end_tag_rule:
  assumes "Must (runes ''Element'') src cur (rn CHR ''<'') = (Inr u, c1)"
    and "parseName U (runes ''Element'') src c1 = (Inr name, c2)"
    and "parseElement_attrs U (name @ runes '' tag'') src [] c2 = (Inr attrs, c3)"
    and "Test src c3 (rn CHR ''>'')"
    and "parseContents U (name @ runes '' tag'') src [] [] (Step c3) = (contents, c4)"
    and "parseETag U (name @ runes '' tag'') src c4 = (Inr endName, c5)"
  shows "parseElement U src cur =
     (if endName = name then (Inr (Element name attrs contents False), c5)
      else (Inl (XMLError (name @ runes '' tag'') (EndTagMismatch endName name) c5), c5))"
  using assms by (simp add: parseElement.simps [of U src cur] error_def)

lemma parseElement_success_end_name:
  assumes "parseElement U src cur = (Inr e, c)" and "\<not> IsEmptyTag e"
  shows "\<exists>c4. parseETag U (ElemName e @ runes '' tag'') src c4 = (Inr (ElemName e), c)"
  using assms
  by (auto simp: parseElement.simps [of U src cur] Let_def error_def
      split: prod.splits sum.splits if_splits)

lemma element_ab_steps:
  "Must (runes ''Element'') (runes ''<ab></ac>'') 0 (rn CHR ''<'') = (Inr (), 1)"
  "parseName asciiOnly (runes ''Element'') (runes ''<ab></ac>'') 1 = (Inr (runes ''ab''), 3)"
  "parseElement_attrs asciiOnly (runes ''ab'' @ runes '' tag'') (runes ''<ab></ac>'') [] 3 = (Inr [], 3)"
  "Test (runes ''<ab></ac>'') 3 (rn CHR ''>'')"
  "parseContents asciiOnly (runes ''ab'' @ runes '' tag'') (runes ''<ab></ac>'') [] [] (Step 3) = ([], 4)"
  "parseETag asciiOnly (runes ''ab'' @ runes '' tag'') (runes ''<ab></ac>'') 4 = (Inr (runes ''ac''), 9)"
  by code_simp+

lemma runes_ac_ne_ab: "runes ''ac'' \<noteq> runes ''ab''"
  by code_simp

text \<open>
  Claim C4. When a start tag ends in \<^verbatim>\<open>>\<close>, the element parses if and only if the
  name that \<^verbatim>\<open>parseETag\<close> returns is the same string of runes as the start tag's
  name; otherwise it fails with the name mismatch. So \<^verbatim>\<open><a></b>\<close> fails, and
  \<^verbatim>\<open><a></A>\<close> fails too; \<^verbatim>\<open><a></a>\<close> and \<^verbatim>\<open><a/>\<close> both succeed with name
  a, no attributes and no contents, and differ only in the empty-tag flag.
\<close>

theorem C4_parseElement_tags:
  "(Must (runes ''Element'') src cur (rn CHR ''<'') = (Inr u, c1) \<longrightarrow>
    parseName U (runes ''Element'') src c1 = (Inr name, c2) \<longrightarrow>
    parseElement_attrs U (name @ runes '' tag'') src [] c2 = (Inr attrs, c3) \<longrightarrow>
    Test src c3 (rn CHR ''>'') \<longrightarrow>
    parseContents U (name @ runes '' tag'') src [] [] (Step c3) = (contents, c4) \<longrightarrow>
    parseETag U (name @ runes '' tag'') src c4 = (Inr endName, c5) \<longrightarrow>
    parseElement U src cur =
      (if endName = name then (Inr (Element name attrs contents False), c5)
       else (Inl (XMLError (name @ runes '' tag'') (EndTagMismatch endName name) c5), c5)))
   \<and> (parseElement U src cur = (Inr e, c) \<longrightarrow> \<not> IsEmptyTag e \<longrightarrow>
      (\<exists>d. parseETag U (ElemName e @ runes '' tag'') src d = (Inr (ElemName e), c)))
   \<and> parseElement U (runes ''<a></b>'') 0
     = (Inl (XMLError (runes ''a tag'') (EndTagMismatch (runes ''b'') (runes ''a'')) 7), 7)
   \<and> parseElement U (runes ''<a></A>'') 0
     = (Inl (XMLError (runes ''a tag'') (EndTagMismatch (runes ''A'') (runes ''a'')) 7), 7)
   \<and> parseElement U (runes ''<a></a>'') 0 = (Inr (Element (runes ''a'') [] [] False), 7)
   \<and> parseElement U (runes ''<a/>'') 0 = (Inr (Element (runes ''a'') [] [] True), 4)"
  using parseElement_end_tag_rule [of src cur u c1 U name c2 attrs c3 contents c4 endName c5]
    parseElement_success_end_name [of U src cur e c]
  by (intro conjI impI element_mismatch element_mismatch_case element_pair element_empty) blast+

theorem C4_witness:
  "Must (runes ''Element'') (runes ''<ab></ac>'') 0 (rn CHR ''<'') = (Inr (), 1)
   \<and> parseName asciiOnly (runes ''Element'') (runes ''<ab></ac>'') 1 = (Inr (runes ''ab''), 3)
   \<and> parseElement_attrs asciiOnly (runes ''ab'' @ runes '' tag'') (runes ''<ab></ac>'') [] 3 = (Inr [], 3)
   \<and> Test (runes ''<ab></ac>'') 3 (rn CHR ''>'')
   \<and> parseContents asciiOnly (runes ''ab'' @ runes '' tag'') (runes ''<ab></ac>'') [] [] (Step 3) = ([], 4)
   \<and> parseETag asciiOnly (runes ''ab'' @ runes '' tag'') (runes ''<ab></ac>'') 4 = (Inr (runes ''ac''), 9)
   \<and> parseElement asciiOnly (runes ''<ab></ac>'') 0
     = (Inl (XMLError (runes ''ab'' @ runes '' tag'') (EndTagMismatch (runes ''ac'') (runes ''ab'')) 9), 9)"
proof -
  let ?S = "runes ''<ab></ac>''"
  have r: "Must (runes ''Element'') ?S 0 (rn CHR ''<'') = (Inr (), 1) \<longrightarrow>
    parseName asciiOnly (runes ''Element'') ?S 1 = (Inr (runes ''ab''), 3) \<longrightarrow>
    parseElement_attrs asciiOnly (runes ''ab'' @ runes '' tag'') ?S [] 3 = (Inr [], 3) \<longrightarrow>
    Test ?S 3 (rn CHR ''>'') \<longrightarrow>
    parseContents asciiOnly (runes ''ab'' @ runes '' tag'') ?S [] [] (Step 3) = ([], 4) \<longrightarrow>
    parseETag asciiOnly (runes ''ab'' @ runes '' tag'') ?S 4 = (Inr (runes ''ac''), 9) \<longrightarrow>
    parseElement asciiOnly ?S 0 =
      (if runes ''ac'' = runes ''ab'' then (Inr (Element (runes ''ab'') [] [] False), 9)
       else (Inl (XMLError (runes ''ab'' @ runes '' tag'')
               (EndTagMismatch (runes ''ac'') (runes ''ab'')) 9), 9))"
    by (rule C4_parseElement_tags [where src = ?S and cur = 0 and u = "()" and ?c1.0 = 1
        and U = asciiOnly and name = "runes ''ab''" and ?c2.0 = 3 and attrs = "[]" and ?c3.0 = 3
        and contents = "[]" and ?c4.0 = 4 and endName = "runes ''ac''" and ?c5.0 = 9,
        THEN conjunct1])
  from r element_ab_steps runes_ac_ne_ab
  have "parseElement asciiOnly ?S 0
     = (Inl (XMLError (runes ''ab'' @ runes '' tag'') (EndTagMismatch (runes ''ac'') (runes ''ab'')) 9), 9)"
    by simp
  with element_ab_steps show ?thesis by blast
qed

subsection \<open>Character references\<close>

lemma charref_hex_nonhex:
  "parseCharRef lbl (runes ''&#xU;'') 0 = (Inr (CharRef (runes ''&#x'') (runes ''U'')), 5)"
  by code_simp

lemma charref_hex_empty: "failed (parseCharRef lbl (runes ''&#x;'') 0)"
  by code_simp

lemma charref_examples:
  "parseCharRef lbl (runes ''&#65;'') 0 = (Inr (CharRef (runes ''&#'') (runes ''65'')), 5)"
  "parseCharRef lbl (runes ''&#x41;'') 0 = (Inr (CharRef (runes ''&#x'') (runes ''41'')), 6)"
  by code_simp+

text \<open>
  Claim C2. After \<^verbatim>\<open>&#x\<close> the source tests each character with
  \<^verbatim>\<open>isNum(r) || isAlpha(r)\<close>, so every letter counts as a digit of the hexadecimal
  form: \<^verbatim>\<open>&#xU;\<close> parses to a CharRef with value U, although U is no hexadecimal
  digit. The other parts of the claim hold: \<^verbatim>\<open>&#x;\<close> fails, and \<^verbatim>\<open>&#65;\<close> and
  \<^verbatim>\<open>&#x41;\<close> parse to the values 65 and 41.
\<close>

theorem C2_parseCharRef_accepts_any_letter:
  "parseCharRef lbl (runes ''&#xU;'') 0 = (Inr (CharRef (runes ''&#x'') (runes ''U'')), 5)
   \<and> failed (parseCharRef lbl (runes ''&#x;'') 0)
   \<and> parseCharRef lbl (runes ''&#65;'') 0 = (Inr (CharRef (runes ''&#'') (runes ''65'')), 5)
   \<and> parseCharRef lbl (runes ''&#x41;'') 0 = (Inr (CharRef (runes ''&#x'') (runes ''41'')), 6)"
  by (intro conjI charref_hex_nonhex charref_hex_empty charref_examples)

subsection \<open>The target of a processing instruction\<close>

lemma ContainsAny_iff: "ContainsAny s chars = (\<exists>r\<in>set s. r \<in> set chars)"
  by (simp add: ContainsAny_def list_ex_iff)

lemma pitarget_box: "failed (parsePITarget U lbl (runes ''box'') 0)"
  by code_simp

lemma pitarget_name_box: "parseName U lbl (runes ''box'') 0 = (Inr (runes ''box''), 3)"
  by code_simp

lemma pitarget_general:
  "parseName U lbl src cur = (Inr n, c) \<longrightarrow>
      failed (parsePITarget U lbl src cur) = (\<exists>r\<in>set n. r \<in> set (runes ''xmlXML''))
      \<and> (\<not> failed (parsePITarget U lbl src cur) \<longrightarrow> parsePITarget U lbl src cur = (Inr n, c))"
  by (auto simp: parsePITarget_def andThen_def failed_def error_def ContainsAny_iff)

text \<open>
  Claim C3. Once \<^verbatim>\<open>parsePITarget\<close> has parsed a Name it rejects it if and only if
  some character of the name is one of x, m, l, X, M, L; otherwise it returns the name.
  So a target that is not xml in any letter case, such as box, is rejected.
\<close>

theorem C3_parsePITarget_character_set_test:
  "(parseName U lbl src cur = (Inr n, c) \<longrightarrow>
      failed (parsePITarget U lbl src cur) = (\<exists>r\<in>set n. r \<in> set (runes ''xmlXML''))
      \<and> (\<not> failed (parsePITarget U lbl src cur) \<longrightarrow> parsePITarget U lbl src cur = (Inr n, c)))
   \<and> failed (parsePITarget U lbl (runes ''box'') 0)"
  by (intro conjI pitarget_general pitarget_box)

theorem C3_witness:
  "parseName asciiOnly [] (runes ''box'') 0 = (Inr (runes ''box''), 3)
   \<and> failed (parsePITarget asciiOnly [] (runes ''box'') 0)
   \<and> (\<exists>r\<in>set (runes ''box''). r \<in> set (runes ''xmlXML''))"
  using C3_parsePITarget_character_set_test [of asciiOnly "[]" "runes ''box''" 0 "runes ''box''" 3]
    pitarget_name_box [of asciiOnly "[]"]
  by blast

subsection \<open>Text runs in the content of an element\<close>







lemma not_only_spaces_example: "\<not> isOnlySpaces (runes '' t '')"
  by code_simp



subsection \<open>Mixed content\<close>

lemma parseMixed_loop_stops_after_paren:
  "parseMixed_loop U lbl src names cur = (Inr ns, c) \<Longrightarrow> \<exists>c'. c = Suc c' \<and> Test src c' (rn CHR '')'')"
proof (induction U lbl src names cur rule: parseMixed_loop.induct)
  case (1 U lbl src names cur)
  let ?c1 = "skipSpace src cur"
  show ?case
  proof (cases "Test src ?c1 (rn CHR '')'')")
    case True
    with "1.prems" show ?thesis
      by (auto simp: parseMixed_loop.simps [of U lbl src names cur] Let_def Step_def)
  next
    case nparen: False
    show ?thesis
    proof (cases "isEnd src ?c1")
      case True
      with nparen "1.prems" show ?thesis
        by (simp add: parseMixed_loop.simps [of U lbl src names cur] Let_def error_def)
    next
      case nend: False
      obtain r2 c2 where m: "Must lbl src ?c1 (rn CHR ''|'') = (r2, c2)" by force
      show ?thesis
      proof (cases r2)
        case (Inl e)
        with m nparen nend "1.prems" show ?thesis
          by (simp add: parseMixed_loop.simps [of U lbl src names cur] Let_def)
      next
        case (Inr u)
        obtain r3 c3 where n: "parseName U lbl src (skipSpace src c2) = (r3, c3)" by force
        show ?thesis
        proof (cases r3)
          case I3: (Inl e)
          with m Inr n nparen nend "1.prems" show ?thesis
            by (simp add: parseMixed_loop.simps [of U lbl src names cur] Let_def)
        next
          case I3: (Inr nm)
          from m Inr n I3 nparen nend "1.prems"
          have "parseMixed_loop U lbl src (names @ [nm]) c3 = (Inr ns, c)"
            by (simp add: parseMixed_loop.simps [of U lbl src names cur] Let_def)
          with "1.IH" [OF refl nparen nend m [symmetric] Inr n [symmetric] I3] show ?thesis
            by simp
        qed
      qed
    qed
  qed
qed

lemma parseMixed_iff:
  "parseMixed U lbl src cur = (Inr m, c) \<longleftrightarrow>
     (\<exists>c1 c2 c3.
        Must lbl src cur (rn CHR ''('') = (Inr (), c1)
      \<and> Musts lbl src (skipSpace src c1) (runes ''#PCDATA'') = (Inr (), c2)
      \<and> parseMixed_loop U lbl src [] c2 = (Inr (Names m), c3)
      \<and> (if Names m \<noteq> [] then Test src c3 (rn CHR ''*'') \<and> c = Suc c3 else c = c3))"
  by (cases m)
    (auto simp: parseMixed_def andThen_def Must_def error_def Step_def
      split: prod.splits sum.splits if_splits)

lemma parseMixed_star_mandatory:
  "parseMixed U lbl src cur = (Inr m, c) \<longrightarrow> Names m \<noteq> [] \<longrightarrow>
     (\<exists>c'. c = Suc c' \<and> Test src c' (rn CHR ''*''))"
  by (auto simp: parseMixed_iff)

lemma parseMixed_empty_stops_after_paren:
  "parseMixed U lbl src cur = (Inr m, c) \<longrightarrow> Names m = [] \<longrightarrow>
     (\<exists>c'. c = Suc c' \<and> Test src c' (rn CHR '')''))"
  by (auto simp: parseMixed_iff dest: parseMixed_loop_stops_after_paren)

lemma mixed_examples:
  "parseMixed U lbl (runes ''(#PCDATA)'') 0 = (Inr (Mixed []), 9)"
  "parseMixed U lbl (runes ''(#PCDATA|a|b)*'') 0 = (Inr (Mixed [runes ''a'', runes ''b'']), 14)"
  "parseMixed U lbl (runes ''(#PCDATA|a)'') 0 = (Inl (XMLError lbl (ExpectedRune (rn CHR ''*'')) 11), 11)"
  "parseMixed U lbl (runes ''(#PCDATA)*'') 0 = (Inr (Mixed []), 9)"
  by code_simp+

lemma elementdecl_examples:
  "parseElementDecl U (runes ''<!ELEMENT a (#PCDATA)*>'') 0
     = (Inl (XMLError (runes ''Element Declaration'') (ExpectedRune (rn CHR ''>'')) 21), 21)"
  "parseElementDecl U (runes ''<!ELEMENT a (#PCDATA)>'') 0
     = (Inr (ElementDecl (runes ''a'') (MixedSpec (Mixed []))), 22)"
  "parseElementDecl U (runes ''<!ELEMENT a (#PCDATA|b)*>'') 0
     = (Inr (ElementDecl (runes ''a'') (MixedSpec (Mixed [runes ''b'']))), 25)"
  by code_simp+

lemma parseElementDecl_needs_gt:
  "Musts (runes ''Element Declaration'') src cur (runes ''<!ELEMENT'') = (Inr (), c1) \<longrightarrow>
   parseSpace (runes ''Element Declaration'') src c1 = (Inr (), c2) \<longrightarrow>
   parseName U (runes ''Element Declaration'') src c2 = (Inr n, c3) \<longrightarrow>
   parseSpace (runes ''Element Declaration'') src c3 = (Inr (), c4) \<longrightarrow>
   parseContentSpec U (runes ''Element Declaration'') src c4 = (Inr spec, c5) \<longrightarrow>
   parseElementDecl U src cur =
     (if Test src (skipSpace src c5) (rn CHR ''>'')
      then (Inr (ElementDecl n spec), Suc (skipSpace src c5))
      else (Inl (XMLError (runes ''Element Declaration'') (ExpectedRune (rn CHR ''>''))
              (skipSpace src c5)), skipSpace src c5))"
  by (simp add: parseElementDecl_def andThen_def Let_def Must_def error_def Step_def)

lemma parseContentSpec_mixed:
  "\<not> Tests src cur (runes ''EMPTY'') \<longrightarrow> \<not> Tests src cur (runes ''ANY'') \<longrightarrow>
   parseMixed U lbl src cur = (Inr m, c) \<longrightarrow>
   parseContentSpec U lbl src cur = (Inr (MixedSpec m), c)"
  by (simp add: parseContentSpec_def)

text \<open>
  Claim C5. \<^verbatim>\<open>parseMixed\<close> succeeds on \<^verbatim>\<open>(#PCDATA)\<close> with no names and on
  \<^verbatim>\<open>(#PCDATA|a|b)*\<close> with the names a, b in this order, and fails on
  \<^verbatim>\<open>(#PCDATA|a)\<close>: it succeeds exactly when the parenthesis, \<^verbatim>\<open>#PCDATA\<close> and the
  list of names parse and, if there is a name, \<^verbatim>\<open>*\<close> follows the closing
  parenthesis; so with a name in the list the last character consumed is that
  \<^verbatim>\<open>*\<close>.
\<close>

theorem C5_parseMixed_star:
  "(parseMixed U lbl src cur = (Inr m, c) \<longleftrightarrow>
     (\<exists>c1 c2 c3.
        Must lbl src cur (rn CHR ''('') = (Inr (), c1)
      \<and> Musts lbl src (skipSpace src c1) (runes ''#PCDATA'') = (Inr (), c2)
      \<and> parseMixed_loop U lbl src [] c2 = (Inr (Names m), c3)
      \<and> (if Names m \<noteq> [] then Test src c3 (rn CHR ''*'') \<and> c = Suc c3 else c = c3)))
   \<and> (parseMixed U lbl src cur = (Inr m, c) \<longrightarrow> Names m \<noteq> [] \<longrightarrow>
        (\<exists>c'. c = Suc c' \<and> Test src c' (rn CHR ''*'')))
   \<and> parseMixed U lbl (runes ''(#PCDATA)'') 0 = (Inr (Mixed []), 9)
   \<and> parseMixed U lbl (runes ''(#PCDATA|a|b)*'') 0 = (Inr (Mixed [runes ''a'', runes ''b'']), 14)
   \<and> parseMixed U lbl (runes ''(#PCDATA|a)'') 0
        = (Inl (XMLError lbl (ExpectedRune (rn CHR ''*'')) 11), 11)"
  by (intro conjI parseMixed_iff parseMixed_star_mandatory mixed_examples)

lemma mixed_witness_facts:
  "parseMixed asciiOnly [] (runes ''(#PCDATA|a|b)*'') 0 = (Inr (Mixed [runes ''a'', runes ''b'']), 14)"
  "Names (Mixed [runes ''a'', runes ''b'']) \<noteq> []"
  "Test (runes ''(#PCDATA|a|b)*'') 13 (rn CHR ''*'')"
  by code_simp+

theorem C5_witness:
  "parseMixed asciiOnly [] (runes ''(#PCDATA|a|b)*'') 0 = (Inr (Mixed [runes ''a'', runes ''b'']), 14)
   \<and> Names (Mixed [runes ''a'', runes ''b'']) \<noteq> []
   \<and> (\<exists>c'. (14::nat) = Suc c' \<and> Test (runes ''(#PCDATA|a|b)*'') c' (rn CHR ''*''))"
proof -
  have "parseMixed asciiOnly [] (runes ''(#PCDATA|a|b)*'') 0 = (Inr (Mixed [runes ''a'', runes ''b'']), 14)
      \<longrightarrow> Names (Mixed [runes ''a'', runes ''b'']) \<noteq> [] \<longrightarrow>
      (\<exists>c'. (14::nat) = Suc c' \<and> Test (runes ''(#PCDATA|a|b)*'') c' (rn CHR ''*''))"
    by (rule C5_parseMixed_star [where U = asciiOnly and lbl = "[]"
        and src = "runes ''(#PCDATA|a|b)*''" and cur = 0
        and m = "Mixed [runes ''a'', runes ''b'']" and c = 14, THEN conjunct2, THEN conjunct1])
  with mixed_witness_facts(1,2) show ?thesis by blast
qed

text \<open>
  Claim C10. With no name in the list \<^verbatim>\<open>parseMixed\<close> stops right after the closing
  parenthesis and leaves a following \<^verbatim>\<open>*\<close> unread. \<^verbatim>\<open>parseElementDecl\<close> wants
  \<^verbatim>\<open>>\<close> after the content specification and optional white space, so
  \<^verbatim>\<open><!ELEMENT a (#PCDATA)*>\<close> fails, whereas \<^verbatim>\<open><!ELEMENT a (#PCDATA)>\<close> and
  \<^verbatim>\<open><!ELEMENT a (#PCDATA|b)*>\<close> parse.
\<close>

theorem C10_mixed_without_names_leaves_star:
  "(parseMixed U lbl src cur = (Inr m, c) \<longrightarrow> Names m = [] \<longrightarrow>
      (\<exists>c'. c = Suc c' \<and> Test src c' (rn CHR '')'')))
   \<and> (Musts (runes ''Element Declaration'') src cur (runes ''<!ELEMENT'') = (Inr (), c1) \<longrightarrow>
      parseSpace (runes ''Element Declaration'') src c1 = (Inr (), c2) \<longrightarrow>
      parseName U (runes ''Element Declaration'') src c2 = (Inr n, c3) \<longrightarrow>
      parseSpace (runes ''Element Declaration'') src c3 = (Inr (), c4) \<longrightarrow>
      parseContentSpec U (runes ''Element Declaration'') src c4 = (Inr spec, c5) \<longrightarrow>
      parseElementDecl U src cur =
        (if Test src (skipSpace src c5) (rn CHR ''>'')
         then (Inr (ElementDecl n spec), Suc (skipSpace src c5))
         else (Inl (XMLError (runes ''Element Declaration'') (ExpectedRune (rn CHR ''>''))
                 (skipSpace src c5)), skipSpace src c5)))
   \<and> parseMixed U lbl (runes ''(#PCDATA)*'') 0 = (Inr (Mixed []), 9)
   \<and> parseElementDecl U (runes ''<!ELEMENT a (#PCDATA)*>'') 0
     = (Inl (XMLError (runes ''Element Declaration'') (ExpectedRune (rn CHR ''>'')) 21), 21)
   \<and> parseElementDecl U (runes ''<!ELEMENT a (#PCDATA)>'') 0
     = (Inr (ElementDecl (runes ''a'') (MixedSpec (Mixed []))), 22)
   \<and> parseElementDecl U (runes ''<!ELEMENT a (#PCDATA|b)*>'') 0
     = (Inr (ElementDecl (runes ''a'') (MixedSpec (Mixed [runes ''b'']))), 25)"
  by (intro conjI parseMixed_empty_stops_after_paren parseElementDecl_needs_gt
      mixed_examples elementdecl_examples)

lemma elementdecl_witness_facts:
  "Musts (runes ''Element Declaration'') (runes ''<!ELEMENT a (#PCDATA)*>'') 0 (runes ''<!ELEMENT'') = (Inr (), 9)"
  "parseSpace (runes ''Element Declaration'') (runes ''<!ELEMENT a (#PCDATA)*>'') 9 = (Inr (), 10)"
  "parseName asciiOnly (runes ''Element Declaration'') (runes ''<!ELEMENT a (#PCDATA)*>'') 10 = (Inr (runes ''a''), 11)"
  "parseSpace (runes ''Element Declaration'') (runes ''<!ELEMENT a (#PCDATA)*>'') 11 = (Inr (), 12)"
  "parseContentSpec asciiOnly (runes ''Element Declaration'') (runes ''<!ELEMENT a (#PCDATA)*>'') 12
     = (Inr (MixedSpec (Mixed [])), 21)"
  "\<not> Test (runes ''<!ELEMENT a (#PCDATA)*>'') (skipSpace (runes ''<!ELEMENT a (#PCDATA)*>'') 21) (rn CHR ''>'')"
  "skipSpace (runes ''<!ELEMENT a (#PCDATA)*>'') 21 = 21"
  "Test (runes ''<!ELEMENT a (#PCDATA)*>'') 21 (rn CHR ''*'')"
  by code_simp+

lemma mixed_star_witness_facts:
  "parseMixed asciiOnly [] (runes ''(#PCDATA)*'') 0 = (Inr (Mixed []), 9)"
  "Names (Mixed []) = []"
  "Test (runes ''(#PCDATA)*'') 9 (rn CHR ''*'')"
  by code_simp+

theorem C10_witness:
  "parseMixed asciiOnly [] (runes ''(#PCDATA)*'') 0 = (Inr (Mixed []), 9)
   \<and> Names (Mixed []) = []
   \<and> (\<exists>c'. (9::nat) = Suc c' \<and> Test (runes ''(#PCDATA)*'') c' (rn CHR '')''))
   \<and> Test (runes ''(#PCDATA)*'') 9 (rn CHR ''*'')
   \<and> Musts (runes ''Element Declaration'') (runes ''<!ELEMENT a (#PCDATA)*>'') 0 (runes ''<!ELEMENT'') = (Inr (), 9)
   \<and> parseSpace (runes ''Element Declaration'') (runes ''<!ELEMENT a (#PCDATA)*>'') 9 = (Inr (), 10)
   \<and> parseName asciiOnly (runes ''Element Declaration'') (runes ''<!ELEMENT a (#PCDATA)*>'') 10 = (Inr (runes ''a''), 11)
   \<and> parseSpace (runes ''Element Declaration'') (runes ''<!ELEMENT a (#PCDATA)*>'') 11 = (Inr (), 12)
   \<and> parseContentSpec asciiOnly (runes ''Element Declaration'') (runes ''<!ELEMENT a (#PCDATA)*>'') 12
     = (Inr (MixedSpec (Mixed [])), 21)
   \<and> parseElementDecl asciiOnly (runes ''<!ELEMENT a (#PCDATA)*>'') 0
     = (Inl (XMLError (runes ''Element Declaration'') (ExpectedRune (rn CHR ''>'')) 21), 21)"
proof -
  let ?S = "runes ''<!ELEMENT a (#PCDATA)*>''"
  have a: "parseMixed asciiOnly [] (runes ''(#PCDATA)*'') 0 = (Inr (Mixed []), 9) \<longrightarrow>
      Names (Mixed []) = [] \<longrightarrow>
      (\<exists>c'. (9::nat) = Suc c' \<and> Test (runes ''(#PCDATA)*'') c' (rn CHR '')''))"
    by (rule C10_mixed_without_names_leaves_star [where U = asciiOnly and lbl = "[]"
        and src = "runes ''(#PCDATA)*''" and cur = 0 and m = "Mixed []" and c = 9, THEN conjunct1])
  have b: "Musts (runes ''Element Declaration'') ?S 0 (runes ''<!ELEMENT'') = (Inr (), 9) \<longrightarrow>
      parseSpace (runes ''Element Declaration'') ?S 9 = (Inr (), 10) \<longrightarrow>
      parseName asciiOnly (runes ''Element Declaration'') ?S 10 = (Inr (runes ''a''), 11) \<longrightarrow>
      parseSpace (runes ''Element Declaration'') ?S 11 = (Inr (), 12) \<longrightarrow>
      parseContentSpec asciiOnly (runes ''Element Declaration'') ?S 12 = (Inr (MixedSpec (Mixed [])), 21) \<longrightarrow>
      parseElementDecl asciiOnly ?S 0 =
        (if Test ?S (skipSpace ?S 21) (rn CHR ''>'')
         then (Inr (ElementDecl (runes ''a'') (MixedSpec (Mixed []))), Suc (skipSpace ?S 21))
         else (Inl (XMLError (runes ''Element Declaration'') (ExpectedRune (rn CHR ''>''))
                 (skipSpace ?S 21)), skipSpace ?S 21))"
    by (rule C10_mixed_without_names_leaves_star [where U = asciiOnly and src = ?S and cur = 0
        and ?c1.0 = 9 and ?c2.0 = 10 and n = "runes ''a''" and ?c3.0 = 11 and ?c4.0 = 12
        and spec = "MixedSpec (Mixed [])" and ?c5.0 = 21, THEN conjunct2, THEN conjunct1])
  from b elementdecl_witness_facts
  have c: "parseElementDecl asciiOnly ?S 0
     = (Inl (XMLError (runes ''Element Declaration'') (ExpectedRune (rn CHR ''>'')) 21), 21)"
    by simp
  from a mixed_star_witness_facts
  have d: "\<exists>c'. (9::nat) = Suc c' \<and> Test (runes ''(#PCDATA)*'') c' (rn CHR '')'')" by blast
  from c d mixed_star_witness_facts elementdecl_witness_facts show ?thesis by blast
qed


subsection \<open>Failure and the cursor\<close>



















subsection \<open>Attribute types: longest keyword first\<close>

lemma Tests_Nil: "Tests src cur [] = (cur \<le> length src)"
  by (auto simp: Tests_def Let_def)

lemma Tests_Cons:
  "Tests src cur (x # xs) = (cur < length src \<and> src ! cur = x \<and> Tests src (Suc cur) xs)"
proof (cases "cur < length src")
  case True
  then have "drop cur src = src ! cur # drop (Suc cur) src"
    by (simp add: Cons_nth_drop_Suc)
  with True show ?thesis by (auto simp: Tests_def Let_def)
next
  case False
  then show ?thesis by (simp add: Tests_def Let_def)
qed

lemmas Tests_literal = Tests_Cons Tests_Nil runes_def StepN_def

lemma attType_IDREFS:
  "Tests src cur (runes ''IDREFS'') \<longrightarrow>
     parseAttType U lbl src cur = (Inr (TokenType AttTokenIDREFS), cur + 6)"
  by (simp add: parseAttType_def Tests_literal)

lemma attType_IDREF:
  "Tests src cur (runes ''IDREF'') \<longrightarrow> \<not> Tests src cur (runes ''IDREFS'') \<longrightarrow>
     parseAttType U lbl src cur = (Inr (TokenType AttTokenIDREF), cur + 5)"
  by (simp add: parseAttType_def Tests_literal)

lemma attType_ID:
  "Tests src cur (runes ''ID'') \<longrightarrow> \<not> Tests src cur (runes ''IDREF'') \<longrightarrow>
     parseAttType U lbl src cur = (Inr (TokenType AttTokenID), cur + 2)"
  by (simp add: parseAttType_def Tests_literal)

lemma attType_NMTOKENS:
  "Tests src cur (runes ''NMTOKENS'') \<longrightarrow>
     parseAttType U lbl src cur = (Inr (TokenType AttTokenNMTOKENS), cur + 8)"
  by (simp add: parseAttType_def Tests_literal)

lemma attType_NMTOKEN:
  "Tests src cur (runes ''NMTOKEN'') \<longrightarrow> \<not> Tests src cur (runes ''NMTOKENS'') \<longrightarrow>
     parseAttType U lbl src cur = (Inr (TokenType AttTokenNMTOKEN), cur + 7)"
  by (simp add: parseAttType_def Tests_literal)

lemma attType_examples:
  "parseAttType U lbl (runes ''IDREFS'') 0 = (Inr (TokenType AttTokenIDREFS), 6)"
  "parseAttType U lbl (runes ''IDREF'') 0 = (Inr (TokenType AttTokenIDREF), 5)"
  "parseAttType U lbl (runes ''ID'') 0 = (Inr (TokenType AttTokenID), 2)"
  "parseAttType U lbl (runes ''NMTOKENS'') 0 = (Inr (TokenType AttTokenNMTOKENS), 8)"
  "parseAttType U lbl (runes ''NMTOKEN'') 0 = (Inr (TokenType AttTokenNMTOKEN), 7)"
  by code_simp+

text \<open>
  Claim C6: \<^verbatim>\<open>parseAttType\<close> resolves the overlapping keywords by longest match. On
  input that begins with \<^verbatim>\<open>IDREFS\<close> at the cursor it returns the token IDREFS; on
  \<^verbatim>\<open>IDREF\<close> not followed by \<^verbatim>\<open>S\<close> it returns IDREF; on \<^verbatim>\<open>ID\<close> not followed by
  \<^verbatim>\<open>REF\<close> it returns ID; on \<^verbatim>\<open>NMTOKENS\<close> it returns NMTOKENS; on \<^verbatim>\<open>NMTOKEN\<close> not
  followed by \<^verbatim>\<open>S\<close> it returns NMTOKEN. Each time the cursor advances by the length
  of the keyword returned. The five keywords as whole inputs are evaluated.
\<close>

theorem C6_parseAttType_longest_match:
  "(Tests src cur (runes ''IDREFS'') \<longrightarrow>
      parseAttType U lbl src cur = (Inr (TokenType AttTokenIDREFS), cur + 6))
   \<and> (Tests src cur (runes ''IDREF'') \<longrightarrow> \<not> Tests src cur (runes ''IDREFS'') \<longrightarrow>
      parseAttType U lbl src cur = (Inr (TokenType AttTokenIDREF), cur + 5))
   \<and> (Tests src cur (runes ''ID'') \<longrightarrow> \<not> Tests src cur (runes ''IDREF'') \<longrightarrow>
      parseAttType U lbl src cur = (Inr (TokenType AttTokenID), cur + 2))
   \<and> (Tests src cur (runes ''NMTOKENS'') \<longrightarrow>
      parseAttType U lbl src cur = (Inr (TokenType AttTokenNMTOKENS), cur + 8))
   \<and> (Tests src cur (runes ''NMTOKEN'') \<longrightarrow> \<not> Tests src cur (runes ''NMTOKENS'') \<longrightarrow>
      parseAttType U lbl src cur = (Inr (TokenType AttTokenNMTOKEN), cur + 7))
   \<and> parseAttType U lbl (runes ''IDREFS'') 0 = (Inr (TokenType AttTokenIDREFS), 6)
   \<and> parseAttType U lbl (runes ''IDREF'') 0 = (Inr (TokenType AttTokenIDREF), 5)
   \<and> parseAttType U lbl (runes ''ID'') 0 = (Inr (TokenType AttTokenID), 2)
   \<and> parseAttType U lbl (runes ''NMTOKENS'') 0 = (Inr (TokenType AttTokenNMTOKENS), 8)
   \<and> parseAttType U lbl (runes ''NMTOKEN'') 0 = (Inr (TokenType AttTokenNMTOKEN), 7)"
  by (intro conjI attType_IDREFS attType_IDREF attType_ID attType_NMTOKENS attType_NMTOKEN
      attType_examples)

lemma attType_witness_facts:
  "Tests (runes ''x IDREFS #IMPLIED'') 2 (runes ''IDREFS'')"
  "Tests (runes ''x IDREF #IMPLIED'') 2 (runes ''IDREF'')"
  "\<not> Tests (runes ''x IDREF #IMPLIED'') 2 (runes ''IDREFS'')"
  "Tests (runes ''x NMTOKENS #IMPLIED'') 2 (runes ''NMTOKENS'')"
  by code_simp+

theorem C6_witness:
  "Tests (runes ''x IDREFS #IMPLIED'') 2 (runes ''IDREFS'')
   \<and> parseAttType asciiOnly [] (runes ''x IDREFS #IMPLIED'') 2 = (Inr (TokenType AttTokenIDREFS), 2 + 6)
   \<and> Tests (runes ''x IDREF #IMPLIED'') 2 (runes ''IDREF'')
   \<and> \<not> Tests (runes ''x IDREF #IMPLIED'') 2 (runes ''IDREFS'')
   \<and> parseAttType asciiOnly [] (runes ''x IDREF #IMPLIED'') 2 = (Inr (TokenType AttTokenIDREF), 2 + 5)
   \<and> Tests (runes ''x NMTOKENS #IMPLIED'') 2 (runes ''NMTOKENS'')
   \<and> parseAttType asciiOnly [] (runes ''x NMTOKENS #IMPLIED'') 2 = (Inr (TokenType AttTokenNMTOKENS), 2 + 8)"
proof -
  have a: "Tests (runes ''x IDREFS #IMPLIED'') 2 (runes ''IDREFS'') \<longrightarrow>
      parseAttType asciiOnly [] (runes ''x IDREFS #IMPLIED'') 2 = (Inr (TokenType AttTokenIDREFS), 2 + 6)"
    by (rule C6_parseAttType_longest_match [where U = asciiOnly and lbl = "[]"
        and src = "runes ''x IDREFS #IMPLIED''" and cur = 2, THEN conjunct1])
  have b: "Tests (runes ''x IDREF #IMPLIED'') 2 (runes ''IDREF'') \<longrightarrow>
      \<not> Tests (runes ''x IDREF #IMPLIED'') 2 (runes ''IDREFS'') \<longrightarrow>
      parseAttType asciiOnly [] (runes ''x IDREF #IMPLIED'') 2 = (Inr (TokenType AttTokenIDREF), 2 + 5)"
    by (rule C6_parseAttType_longest_match [where U = asciiOnly and lbl = "[]"
        and src = "runes ''x IDREF #IMPLIED''" and cur = 2, THEN conjunct2, THEN conjunct1])
  have c: "Tests (runes ''x NMTOKENS #IMPLIED'') 2 (runes ''NMTOKENS'') \<longrightarrow>
      parseAttType asciiOnly [] (runes ''x NMTOKENS #IMPLIED'') 2 = (Inr (TokenType AttTokenNMTOKENS), 2 + 8)"
    by (rule C6_parseAttType_longest_match [where U = asciiOnly and lbl = "[]"
        and src = "runes ''x NMTOKENS #IMPLIED''" and cur = 2,
        THEN conjunct2, THEN conjunct2, THEN conjunct2, THEN conjunct1])
  from a b c attType_witness_facts show ?thesis by blast
qed

subsection \<open>Input after the root element\<close>

lemma parseMisc_unknown:
  "\<not> Tests src cur (runes ''<!--'') \<Longrightarrow> \<not> Tests src cur (runes ''<?'') \<Longrightarrow>
   \<not> isSpace (Get src cur) \<Longrightarrow>
   parseMisc U lbl src cur = (Inl (XMLError lbl (Message ''unknown misc type'') cur), cur)"
  by (simp add: parseMisc_def error_def)

lemma parse_after_element:
  assumes "parseProlog U lbl src cur = (Inr pro, c1)" and "parseElement U src c1 = (Inr e, c2)"
  shows "parse U lbl src cur =
    (Inr (XML pro e (fst (parseMisc_loop U lbl src [] c2))), snd (parseMisc_loop U lbl src [] c2))"
  using assms by (simp add: parse_def andThen_def split: prod.splits)

lemma parse_succeeds:
  assumes "parseProlog U lbl src cur = (Inr pro, c1)" and "parseElement U src c1 = (Inr e, c2)"
  shows "\<exists>miscs c3. parse U lbl src cur = (Inr (XML pro e miscs), c3) \<and> c2 \<le> c3
           \<and> failed (parseMisc U lbl src c3)"
proof -
  obtain miscs c3 where l: "parseMisc_loop U lbl src [] c2 = (miscs, c3)" by force
  from parse_after_element [OF assms] l
  have "parse U lbl src cur = (Inr (XML pro e miscs), c3)" by simp
  with parseMisc_loop_stops [OF l] show ?thesis by blast
qed

lemma parse_ignores_trailing:
  assumes "parseProlog U lbl src cur = (Inr pro, c1)" and "parseElement U src c1 = (Inr e, c2)"
    and "\<not> Tests src c2 (runes ''<!--'')" and "\<not> Tests src c2 (runes ''<?'')"
    and "\<not> isSpace (Get src c2)"
  shows "parse U lbl src cur = (Inr (XML pro e []), c2)"
proof -
  from parseMisc_unknown [OF assms(3-5), of U lbl]
  have "failed (parseMisc U lbl src c2)" by (simp add: failed_def)
  then have "parseMisc_loop U lbl src [] c2 = ([], c2)" by (rule parseMisc_loop_stops_at_once)
  with parse_after_element [OF assms(1,2)] show ?thesis by simp
qed

lemma parse_failed_iff:
  "failed (parse U lbl src cur) \<longleftrightarrow>
     failed (parseProlog U lbl src cur)
     \<or> (\<exists>pro c1. parseProlog U lbl src cur = (Inr pro, c1) \<and> failed (parseElement U src c1))"
proof (cases "parseProlog U lbl src cur")
  case (Pair r c1)
  show ?thesis
  proof (cases r)
    case (Inl err)
    with Pair show ?thesis by (simp add: parse_def andThen_def failed_def)
  next
    case (Inr pro)
    note p = Pair [unfolded Inr]
    obtain r2 c2 where e: "parseElement U src c1 = (r2, c2)" by force
    show ?thesis
    proof (cases r2)
      case (Inl err)
      with p e show ?thesis by (simp add: parse_def andThen_def failed_def)
    next
      case (Inr el)
      with p e parse_after_element [of U lbl src cur pro c1 el c2]
      show ?thesis by (simp add: failed_def)
    qed
  qed
qed

lemma parse_examples:
  "parse U lbl (runes ''<a/>@'') 0
     = (Inr (XML (Prolog None [] None []) (Element (runes ''a'') [] [] True) []), 4)"
  "Get (runes ''<a/>@'') 4 = rn CHR ''@''"
  "parse U lbl (runes ''<a/><!-- x'') 0
     = (Inr (XML (Prolog None [] None []) (Element (runes ''a'') [] [] True) []), 4)"
  "parse U lbl (runes ''<a/> <!--c--> @'') 0
     = (Inr (XML (Prolog None [] None []) (Element (runes ''a'') [] [] True)
          [MiscComment (runes ''c'')]), 14)"
  by code_simp+

text \<open>
  Claim C9: \<^verbatim>\<open>parse\<close> never fails because of input left after the root element. Once
  the prolog and the root element have parsed, \<^verbatim>\<open>parse\<close> returns the document; the loop
  over the trailing \<^verbatim>\<open>Misc\<close> ends at a cursor where \<^verbatim>\<open>parseMisc\<close> fails, restored to
  the position before that attempt, and the input from there on is left unconsumed.
  When the input after the root element starts neither a comment nor a processing
  instruction nor white space, the document has no trailing \<^verbatim>\<open>Misc\<close> and the cursor
  stays right after the root element. So \<^verbatim>\<open>parse\<close> fails exactly when the prolog or
  the root element fails. On \<^verbatim>\<open><a/>@\<close> the result is the document with the cursor
  at 4, on the \<^verbatim>\<open>@\<close>; a comment that is not closed is left unconsumed as well.
\<close>

theorem C9_parse_ignores_trailing_input:
  "(parseProlog U lbl src cur = (Inr pro, c1) \<longrightarrow> parseElement U src c1 = (Inr e, c2) \<longrightarrow>
      (\<exists>miscs c3. parse U lbl src cur = (Inr (XML pro e miscs), c3) \<and> c2 \<le> c3
         \<and> failed (parseMisc U lbl src c3)))
   \<and> (parseProlog U lbl src cur = (Inr pro, c1) \<longrightarrow> parseElement U src c1 = (Inr e, c2) \<longrightarrow>
      \<not> Tests src c2 (runes ''<!--'') \<longrightarrow> \<not> Tests src c2 (runes ''<?'') \<longrightarrow>
      \<not> isSpace (Get src c2) \<longrightarrow>
      parse U lbl src cur = (Inr (XML pro e []), c2))
   \<and> (failed (parse U lbl src cur) \<longleftrightarrow>
        failed (parseProlog U lbl src cur)
        \<or> (\<exists>pro c1. parseProlog U lbl src cur = (Inr pro, c1)
              \<and> failed (parseElement U src c1)))
   \<and> parse U lbl (runes ''<a/>@'') 0
        = (Inr (XML (Prolog None [] None []) (Element (runes ''a'') [] [] True) []), 4)
   \<and> Get (runes ''<a/>@'') 4 = rn CHR ''@''
   \<and> parse U lbl (runes ''<a/><!-- x'') 0
        = (Inr (XML (Prolog None [] None []) (Element (runes ''a'') [] [] True) []), 4)
   \<and> parse U lbl (runes ''<a/> <!--c--> @'') 0
        = (Inr (XML (Prolog None [] None []) (Element (runes ''a'') [] [] True)
             [MiscComment (runes ''c'')]), 14)"
  by (intro conjI impI parse_failed_iff parse_examples)
    (erule (1) parse_succeeds, erule (4) parse_ignores_trailing)

lemma parse_witness_facts:
  "parseProlog asciiOnly [] (runes ''<a/>@'') 0 = (Inr (Prolog None [] None []), 0)"
  "parseElement asciiOnly (runes ''<a/>@'') 0 = (Inr (Element (runes ''a'') [] [] True), 4)"
  "\<not> Tests (runes ''<a/>@'') 4 (runes ''<!--'')"
  "\<not> Tests (runes ''<a/>@'') 4 (runes ''<?'')"
  "\<not> isSpace (Get (runes ''<a/>@'') 4)"
  by code_simp+

theorem C9_witness:
  "parseProlog asciiOnly [] (runes ''<a/>@'') 0 = (Inr (Prolog None [] None []), 0)
   \<and> parseElement asciiOnly (runes ''<a/>@'') 0 = (Inr (Element (runes ''a'') [] [] True), 4)
   \<and> \<not> Tests (runes ''<a/>@'') 4 (runes ''<!--'')
   \<and> \<not> Tests (runes ''<a/>@'') 4 (runes ''<?'')
   \<and> \<not> isSpace (Get (runes ''<a/>@'') 4)
   \<and> parse asciiOnly [] (runes ''<a/>@'') 0
       = (Inr (XML (Prolog None [] None []) (Element (runes ''a'') [] [] True) []), 4)"
proof -
  have a: "parseProlog asciiOnly [] (runes ''<a/>@'') 0 = (Inr (Prolog None [] None []), 0) \<longrightarrow>
      parseElement asciiOnly (runes ''<a/>@'') 0 = (Inr (Element (runes ''a'') [] [] True), 4) \<longrightarrow>
      \<not> Tests (runes ''<a/>@'') 4 (runes ''<!--'') \<longrightarrow> \<not> Tests (runes ''<a/>@'') 4 (runes ''<?'') \<longrightarrow>
      \<not> isSpace (Get (runes ''<a/>@'') 4) \<longrightarrow>
      parse asciiOnly [] (runes ''<a/>@'') 0
        = (Inr (XML (Prolog None [] None []) (Element (runes ''a'') [] [] True) []), 4)"
    by (rule C9_parse_ignores_trailing_input [where U = asciiOnly and lbl = "[]"
        and src = "runes ''<a/>@''" and cur = 0 and pro = "Prolog None [] None []" and ?c1.0 = 0
        and e = "Element (runes ''a'') [] [] True" and ?c2.0 = 4, THEN conjunct2, THEN conjunct1])
  from a parse_witness_facts show ?thesis by blast
qed

end
